theory Spec2Isabelle
  imports Complex_Main "HOL-Library.Multiset"
begin

section \<open>Data model\<close>

text \<open>
  The objects of \<^verbatim>\<open>DynamicStochasticSystem.tsx\<close>. A JavaScript \<^verbatim>\<open>number\<close> is
  modelled as a \<^typ>\<open>real\<close>; a score cell \<^verbatim>\<open>number | null\<close> is a \<^typ>\<open>real option\<close>
  with \<^term>\<open>None\<close> for \<^verbatim>\<open>null\<close>. The nested object \<^verbatim>\<open>data[timeId][subId]\<close> is a
  function of the two keys, and every cell of a declared slot and subject is a number or
  \<^verbatim>\<open>null\<close>. Arithmetic is exact: rounding errors, \<^verbatim>\<open>NaN\<close> and the infinities of the
  floating-point numbers are outside the model. Record fields carry a prefix because
  \<^verbatim>\<open>id\<close>, \<^verbatim>\<open>name\<close> and \<^verbatim>\<open>weight\<close> occur in several object shapes.
\<close>

record timeSlot =
  t_id :: string
  t_label :: string
  t_weight :: real

record subject =
  s_id :: string
  s_name :: string
  s_weight :: real
  s_full :: real
  s_type :: string

type_synonym scoreData = "string \<Rightarrow> string \<Rightarrow> real option"

datatype missingType = TNone | TDiscrete | TContinuous

section \<open>analyzeMissingType\<close>

text \<open>
  The backward loop \<^verbatim>\<open>while (i >= 0 && cell(i) === null) { missingLen++; i--; }\<close>.
  The first numeric argument is the source's \<^verbatim>\<open>i + 1\<close>, so that \<^verbatim>\<open>i >= 0\<close> is the
  successor case.
\<close>

fun scanBack :: "scoreData \<Rightarrow> timeSlot list \<Rightarrow> string \<Rightarrow> nat \<Rightarrow> nat \<Rightarrow> nat" where
  "scanBack sd ts subId 0 missingLen = missingLen"
| "scanBack sd ts subId (Suc i) missingLen =
     (if sd (t_id (ts ! i)) subId = None then scanBack sd ts subId i (Suc missingLen)
      else missingLen)"

text \<open>The forward loop \<^verbatim>\<open>while (j < timeSlots.length && cell(j) === null) { missingLen++; j++; }\<close>.\<close>

function scanFwd :: "scoreData \<Rightarrow> timeSlot list \<Rightarrow> string \<Rightarrow> nat \<Rightarrow> nat \<Rightarrow> nat" where
  "scanFwd sd ts subId j missingLen =
     (if j < length ts \<and> sd (t_id (ts ! j)) subId = None
      then scanFwd sd ts subId (Suc j) (Suc missingLen)
      else missingLen)"
  by pat_completeness auto
termination
  by (relation "measure (\<lambda>(sd, ts, subId, j, missingLen). length ts - j)") auto

declare scanFwd.simps [simp del]

text \<open>
  \<^verbatim>\<open>analyzeMissingType(studentData, timeIdx, subId, timeSlots)\<close>. Reading
  \<^verbatim>\<open>timeSlots[timeIdx].id\<close> with the index out of range throws a TypeError: the result
  \<^term>\<open>None\<close>.
\<close>

definition analyzeMissingType ::
  "scoreData \<Rightarrow> nat \<Rightarrow> string \<Rightarrow> timeSlot list \<Rightarrow> missingType option" where
  "analyzeMissingType studentData timeIdx subId timeSlots =
     (if length timeSlots \<le> timeIdx then None
      else if studentData (t_id (timeSlots ! timeIdx)) subId \<noteq> None then Some TNone
      else
        let missingLen = scanBack studentData timeSlots subId timeIdx 1;
            missingLen = scanFwd studentData timeSlots subId (Suc timeIdx) missingLen;
            isEdge = (timeIdx = 0 \<or> timeIdx = length timeSlots - 1)
        in if missingLen > 2 \<or> isEdge then Some TContinuous else Some TDiscrete)"

text \<open>
  The gap of the glossary, in the spec's words: a maximal run \<open>lo..hi\<close> of consecutive
  absent cells of one subject along the time axis.
\<close>

definition isGap :: "scoreData \<Rightarrow> timeSlot list \<Rightarrow> string \<Rightarrow> nat \<Rightarrow> nat \<Rightarrow> bool" where
  "isGap sd ts subId lo hi \<longleftrightarrow>
     lo \<le> hi \<and> hi < length ts \<and>
     (\<forall>k \<in> {lo..hi}. sd (t_id (ts ! k)) subId = None) \<and>
     (lo = 0 \<or> sd (t_id (ts ! (lo - 1))) subId \<noteq> None) \<and>
     (Suc hi = length ts \<or> sd (t_id (ts ! Suc hi)) subId \<noteq> None)"


section \<open>Students and imputation provenance\<close>

text \<open>
  The method strings written by the engine are values of a datatype: \<open>Unset\<close> is the
  empty string the source starts from, \<open>TemporalInterpolation\<close> the interpolation tag,
  \<open>Regression n\<close> the regression tag built from the reference subject's name \<open>n\<close>,
  \<open>MeanFill\<close> the mean fallback tag, \<open>KNN\<close> and \<open>BoxMuller\<close> the other two.
\<close>

datatype methodTag = Unset | TemporalInterpolation | Regression string | MeanFill | KNN | BoxMuller

record imputedDetail =
  d_val :: real
  d_type :: missingType
  d_method :: methodTag

record student =
  st_id :: string
  st_name :: string
  st_data :: scoreData
  finalScore :: real
  imputedDetails :: "string \<Rightarrow> string \<Rightarrow> imputedDetail option"

datatype algorithmType = BoxMullerAlg | RegressionAlg | KnnAlg

section \<open>calculateCorrelation\<close>

text \<open>
  \<^verbatim>\<open>data.map(s => ... a !== null && b !== null ? [a, b] : null).filter(Boolean)\<close>
\<close>

definition validPairsOf :: "student list \<Rightarrow> string \<Rightarrow> string \<Rightarrow> string \<Rightarrow> (real \<times> real) list" where
  "validPairsOf students subA subB timeId =
     List.map_filter
       (\<lambda>s. case (st_data s timeId subA, st_data s timeId subB) of
              (Some a, Some b) \<Rightarrow> Some (a, b)
            | _ \<Rightarrow> None)
       students"

definition calculateCorrelation :: "student list \<Rightarrow> string \<Rightarrow> string \<Rightarrow> string \<Rightarrow> real" where
  "calculateCorrelation students subA subB timeId =
     (let validPairs = validPairsOf students subA subB timeId in
      if length validPairs < 3 then 0
      else
        let meanA = foldl (\<lambda>s p. s + fst p) 0 validPairs / real (length validPairs);
            meanB = foldl (\<lambda>s p. s + snd p) 0 validPairs / real (length validPairs);
            num = foldl (\<lambda>n p. n + (fst p - meanA) * (snd p - meanB)) 0 validPairs;
            denA = foldl (\<lambda>d p. d + (fst p - meanA)\<^sup>2) 0 validPairs;
            denB = foldl (\<lambda>d p. d + (snd p - meanB)\<^sup>2) 0 validPairs
        in if denA = 0 \<or> denB = 0 then 0 else num / sqrt (denA * denB))"

text \<open>
  The accumulators \<^verbatim>\<open>denA\<close> and \<^verbatim>\<open>denB\<close> of \<^verbatim>\<open>calculateCorrelation\<close> as functions of
  \<^verbatim>\<open>validPairs\<close>: the sums of the squared deviations of the two samples from their means.
  The guard of the source tests these accumulated values. In the source they are doubles,
  and for a constant sample the accumulated value is 0 only when the mean is computed
  exactly; the statements about the guard are therefore made on the accumulated sums.
\<close>

definition denA :: "(real \<times> real) list \<Rightarrow> real" where
  "denA validPairs =
     (let meanA = foldl (\<lambda>s p. s + fst p) 0 validPairs / real (length validPairs)
      in foldl (\<lambda>d p. d + (fst p - meanA)\<^sup>2) 0 validPairs)"

definition denB :: "(real \<times> real) list \<Rightarrow> real" where
  "denB validPairs =
     (let meanB = foldl (\<lambda>s p. s + snd p) 0 validPairs / real (length validPairs)
      in foldl (\<lambda>d p. d + (snd p - meanB)\<^sup>2) 0 validPairs)"

section \<open>recalcScores\<close>

text \<open>\<^verbatim>\<open>s.data[t.id]?.[sub.id] || 0\<close>: an absent cell counts as 0.\<close>

definition cellOrZero :: "student \<Rightarrow> timeSlot \<Rightarrow> subject \<Rightarrow> real" where
  "cellOrZero s t sub = (case st_data s (t_id t) (s_id sub) of None \<Rightarrow> 0 | Some v \<Rightarrow> v)"

text \<open>The two nested \<^verbatim>\<open>forEach\<close> loops that accumulate \<^verbatim>\<open>tScore\<close> and \<^verbatim>\<open>total\<close>.\<close>

definition totalScore :: "student \<Rightarrow> timeSlot list \<Rightarrow> subject list \<Rightarrow> real" where
  "totalScore s tSlots subs =
     foldl (\<lambda>total t.
        total + foldl (\<lambda>tScore sub. tScore + cellOrZero s t sub * s_weight sub) 0 subs * t_weight t)
       0 tSlots"

text \<open>
  \<^verbatim>\<open>Array.prototype.sort(compare)\<close> is stable (ECMAScript 2019), so with a consistent
  comparator its result does not depend on the engine's algorithm. It is modelled by the
  stable insertion sort: an element goes before the first later element that it does not
  follow in the comparator's order.
\<close>

fun insertCmp :: "('a \<Rightarrow> 'a \<Rightarrow> real) \<Rightarrow> 'a \<Rightarrow> 'a list \<Rightarrow> 'a list" where
  "insertCmp cmp x [] = [x]"
| "insertCmp cmp x (y # ys) = (if cmp x y \<le> 0 then x # y # ys else y # insertCmp cmp x ys)"

fun sortCmp :: "('a \<Rightarrow> 'a \<Rightarrow> real) \<Rightarrow> 'a list \<Rightarrow> 'a list" where
  "sortCmp cmp [] = []"
| "sortCmp cmp (x # xs) = insertCmp cmp x (sortCmp cmp xs)"

definition byFinalScoreDesc :: "student \<Rightarrow> student \<Rightarrow> real" where
  "byFinalScoreDesc a b = finalScore b - finalScore a"

definition recalcScores :: "student list \<Rightarrow> timeSlot list \<Rightarrow> subject list \<Rightarrow> student list" where
  "recalcScores studentList tSlots subs =
     (let updated = map (\<lambda>s. s\<lparr>finalScore := totalScore s tSlots subs\<rparr>) studentList
      in sortCmp byFinalScoreDesc updated)"

section \<open>The random source and generateBoxMuller\<close>

text \<open>
  \<^verbatim>\<open>Math.random()\<close> is a sequence \<open>rnd\<close> of draws and a position in it; a call returns
  \<open>rnd k\<close> and moves to \<open>Suc k\<close>. The loop \<^verbatim>\<open>while (u === 0) u = Math.random()\<close> need
  not end, so its result is optional.
\<close>

partial_function (option) drawNonZero :: "(nat \<Rightarrow> real) \<Rightarrow> nat \<Rightarrow> (real \<times> nat) option" where
  "drawNonZero rnd k = (if rnd k \<noteq> 0 then Some (rnd k, Suc k) else drawNonZero rnd (Suc k))"

definition generateBoxMuller :: "real \<Rightarrow> real \<Rightarrow> (nat \<Rightarrow> real) \<Rightarrow> nat \<Rightarrow> (real \<times> nat) option" where
  "generateBoxMuller mean std rnd k =
     (case drawNonZero rnd k of None \<Rightarrow> None
      | Some (u, k1) \<Rightarrow>
         (case drawNonZero rnd k1 of None \<Rightarrow> None
          | Some (v, k2) \<Rightarrow>
              let z = sqrt (- 2 * ln u) * cos (2 * pi * v)
              in Some (z * std + mean, k2)))"

section \<open>handleRunAlgorithm\<close>

text \<open>\<^verbatim>\<open>Math.max(0, Math.min(sub.full, Math.round(imputedVal)))\<close>\<close>

definition roundClamp :: "real \<Rightarrow> real \<Rightarrow> real" where
  "roundClamp full imputedVal = max 0 (min full (of_int (round imputedVal)))"

text \<open>Cohort statistics of a cell: \<^verbatim>\<open>validVals\<close>, \<^verbatim>\<open>mean\<close> and \<^verbatim>\<open>std\<close>.\<close>

definition validValsOf :: "student list \<Rightarrow> string \<Rightarrow> string \<Rightarrow> real list" where
  "validValsOf students timeId subId = List.map_filter (\<lambda>s. st_data s timeId subId) students"

definition lengthOr1 :: "'a list \<Rightarrow> real" where
  "lengthOr1 xs = (if length xs = 0 then 1 else real (length xs))"

definition cohortMean :: "student list \<Rightarrow> string \<Rightarrow> string \<Rightarrow> real" where
  "cohortMean students timeId subId =
     (let validVals = validValsOf students timeId subId
      in foldl (\<lambda>a b. a + b) 0 validVals / lengthOr1 validVals)"

definition cohortStd :: "student list \<Rightarrow> string \<Rightarrow> string \<Rightarrow> real" where
  "cohortStd students timeId subId =
     (let validVals = validValsOf students timeId subId;
          mean = cohortMean students timeId subId
      in sqrt (foldl (\<lambda>a b. a + (b - mean)\<^sup>2) 0 validVals / lengthOr1 validVals))"

text \<open>
  The regression branch. \<open>newData\<close> is the working copy of the current student;
  \<open>students\<close> is the cohort as it was before the pass. The reference mean divides the sum
  of the present reference values by \<^verbatim>\<open>students.length\<close>; \<^verbatim>\<open>refMean || 1\<close> replaces 0.
\<close>

definition refMeanOf :: "student list \<Rightarrow> string \<Rightarrow> string \<Rightarrow> real" where
  "refMeanOf students timeId refId =
     foldl (\<lambda>a b. a + b) 0 (validValsOf students timeId refId) / real (length students)"

definition regressionEstimate ::
  "student list \<Rightarrow> subject list \<Rightarrow> scoreData \<Rightarrow> timeSlot \<Rightarrow> subject \<Rightarrow> real \<times> methodTag" where
  "regressionEstimate students subjects newData time sub =
     (let mean = cohortMean students (t_id time) (s_id sub) in
      case find (\<lambda>s. s_id s \<noteq> s_id sub \<and> newData (t_id time) (s_id s) \<noteq> None) subjects of
        Some refSub \<Rightarrow>
          (case newData (t_id time) (s_id refSub) of
             Some refVal \<Rightarrow>
               let refMean = refMeanOf students (t_id time) (s_id refSub)
               in (refVal * (mean / (if refMean = 0 then 1 else refMean)),
                   Regression (s_name refSub))
           | None \<Rightarrow> (mean, MeanFill))
      | None \<Rightarrow> (mean, MeanFill))"

text \<open>
  The nearest-neighbour branch. \<^verbatim>\<open>minDist = Infinity\<close> is \<^term>\<open>None\<close>. The inner loop
  accumulates the squared distance (the source's \<^verbatim>\<open>dist\<close> before its square root is
  taken) and the number of shared dimensions.
\<close>

definition knnDistance ::
  "subject list \<Rightarrow> subject \<Rightarrow> (string \<Rightarrow> real option) \<Rightarrow> (string \<Rightarrow> real option) \<Rightarrow> real \<times> nat" where
  "knnDistance subjects sub mine theirs =
     foldl (\<lambda>(distSq, cnt) s.
        if s_id s \<noteq> s_id sub then
          (case (mine (s_id s), theirs (s_id s)) of
             (Some v1, Some v2) \<Rightarrow> (distSq + (v1 - v2)\<^sup>2, Suc cnt)
           | _ \<Rightarrow> (distSq, cnt))
        else (distSq, cnt))
       (0, 0) subjects"

definition knnVisit ::
  "subject list \<Rightarrow> student \<Rightarrow> scoreData \<Rightarrow> timeSlot \<Rightarrow> subject \<Rightarrow>
   real option \<times> real \<Rightarrow> student \<Rightarrow> real option \<times> real" where
  "knnVisit subjects student newData time sub acc other =
     (if st_id other = st_id student then acc
      else case st_data other (t_id time) (s_id sub) of
        None \<Rightarrow> acc
      | Some otherVal \<Rightarrow>
          (case knnDistance subjects sub (newData (t_id time)) (st_data other (t_id time)) of
             (distSq, cnt) \<Rightarrow>
               if cnt > 0 then
                 (let distance = sqrt distSq in
                  if (case fst acc of None \<Rightarrow> True | Some minDist \<Rightarrow> distance < minDist)
                  then (Some distance, otherVal) else acc)
               else acc))"

definition knnEstimate ::
  "student list \<Rightarrow> subject list \<Rightarrow> student \<Rightarrow> scoreData \<Rightarrow> timeSlot \<Rightarrow> subject \<Rightarrow> real \<times> methodTag" where
  "knnEstimate students subjects student newData time sub =
     (let mean = cohortMean students (t_id time) (s_id sub);
          neighborVal = snd (foldl (knnVisit subjects student newData time sub) (None, mean) students)
      in (neighborVal, KNN))"

text \<open>The block guarded by \<^verbatim>\<open>if (method === '')\<close>: the estimator chosen by \<open>algorithm\<close>.\<close>

definition fallbackEstimate ::
  "algorithmType \<Rightarrow> (nat \<Rightarrow> real) \<Rightarrow> student list \<Rightarrow> subject list \<Rightarrow> student \<Rightarrow> scoreData \<Rightarrow>
   timeSlot \<Rightarrow> subject \<Rightarrow> nat \<Rightarrow> ((real \<times> methodTag) \<times> nat) option" where
  "fallbackEstimate algorithm rnd students subjects student newData time sub k =
     (case algorithm of
        RegressionAlg \<Rightarrow> Some (regressionEstimate students subjects newData time sub, k)
      | KnnAlg \<Rightarrow> Some (knnEstimate students subjects student newData time sub, k)
      | BoxMullerAlg \<Rightarrow>
          (case generateBoxMuller (cohortMean students (t_id time) (s_id sub))
                  (cohortStd students (t_id time) (s_id sub)) rnd k of
             None \<Rightarrow> None
           | Some (v, k') \<Rightarrow> Some ((v, BoxMuller), k')))"

text \<open>
  The block guarded by \<^verbatim>\<open>if (missingType === 'discrete')\<close>: the neighbours are read from
  the working copy; with both present the value is their midpoint plus the jitter
  \<^verbatim>\<open>(Math.random() - 0.5) * 5\<close>, otherwise the type is degraded and the method stays unset.
\<close>

definition interpolate ::
  "(nat \<Rightarrow> real) \<Rightarrow> timeSlot list \<Rightarrow> scoreData \<Rightarrow> nat \<Rightarrow> subject \<Rightarrow> missingType \<Rightarrow> nat \<Rightarrow>
   (real \<times> methodTag) \<times> missingType \<times> nat" where
  "interpolate rnd timeSlots newData tIdx sub missingType k =
     (if missingType = TDiscrete then
        (let prev = (if tIdx > 0 then newData (t_id (timeSlots ! (tIdx - 1))) (s_id sub) else None);
             next = (if tIdx < length timeSlots - 1
                     then newData (t_id (timeSlots ! (tIdx + 1))) (s_id sub) else None)
         in case (prev, next) of
              (Some p, Some n) \<Rightarrow>
                (((p + n) / 2 + (rnd k - 1 / 2) * 5, TemporalInterpolation), missingType, Suc k)
            | _ \<Rightarrow> ((0, Unset), TContinuous, k))
      else ((0, Unset), missingType, k))"

text \<open>
  The value, type and method of one missing cell, before rounding and clamping:
  interpolation first, then the estimator when the method is still unset.
\<close>

definition estimateCell ::
  "algorithmType \<Rightarrow> (nat \<Rightarrow> real) \<Rightarrow> student list \<Rightarrow> timeSlot list \<Rightarrow> subject list \<Rightarrow> student \<Rightarrow>
   scoreData \<Rightarrow> nat \<Rightarrow> subject \<Rightarrow> missingType \<Rightarrow> nat \<Rightarrow> ((real \<times> methodTag) \<times> missingType \<times> nat) option" where
  "estimateCell algorithm rnd students timeSlots subjects student newData tIdx sub missingType k =
     (case interpolate rnd timeSlots newData tIdx sub missingType k of
        ((imputedVal, method), missingType', k') \<Rightarrow>
          if method = Unset then
            (case fallbackEstimate algorithm rnd students subjects student newData
                    (timeSlots ! tIdx) sub k' of
               None \<Rightarrow> None
             | Some (vm, k'') \<Rightarrow> Some (vm, missingType', k''))
          else Some ((imputedVal, method), missingType', k'))"

text \<open>
  The state threaded through the pass over one student: the working copy \<^verbatim>\<open>newData\<close>,
  the provenance \<^verbatim>\<open>newDetails\<close>, the log and the position in the random source. A log
  line is the student's name, the subject's name, the method and the value.
\<close>

record pass =
  newData :: scoreData
  newDetails :: "string \<Rightarrow> string \<Rightarrow> imputedDetail option"
  logs :: "(string \<times> string \<times> methodTag \<times> real) list"
  rng :: nat

definition setCell :: "(string \<Rightarrow> string \<Rightarrow> 'a option) \<Rightarrow> string \<Rightarrow> string \<Rightarrow> 'a \<Rightarrow> string \<Rightarrow> string \<Rightarrow> 'a option" where
  "setCell m timeId subId v = m(timeId := (m timeId)(subId := Some v))"

text \<open>The body of \<^verbatim>\<open>subjects.forEach\<close> for the slot of index \<open>tIdx\<close>.\<close>

definition imputeCell ::
  "algorithmType \<Rightarrow> (nat \<Rightarrow> real) \<Rightarrow> student list \<Rightarrow> timeSlot list \<Rightarrow> subject list \<Rightarrow> student \<Rightarrow>
   nat \<Rightarrow> subject \<Rightarrow> pass \<Rightarrow> pass option" where
  "imputeCell algorithm rnd students timeSlots subjects student tIdx sub st =
     (case analyzeMissingType (st_data student) tIdx (s_id sub) timeSlots of
        None \<Rightarrow> None
      | Some TNone \<Rightarrow> Some st
      | Some missingType \<Rightarrow>
          (case estimateCell algorithm rnd students timeSlots subjects student (newData st)
                  tIdx sub missingType (rng st) of
             None \<Rightarrow> None
           | Some ((imputedVal, method), missingType', k') \<Rightarrow>
               let imputedVal = roundClamp (s_full sub) imputedVal;
                   time = timeSlots ! tIdx
               in Some \<lparr>newData = setCell (newData st) (t_id time) (s_id sub) imputedVal,
                        newDetails = setCell (newDetails st) (t_id time) (s_id sub)
                           \<lparr>d_val = imputedVal, d_type = missingType', d_method = method\<rparr>,
                        logs = logs st @ [(st_name student, s_name sub, method, imputedVal)],
                        rng = k'\<rparr>))"

text \<open>A \<^verbatim>\<open>forEach\<close> whose body may fail to return.\<close>

fun forEachM :: "('a \<Rightarrow> 's \<Rightarrow> 's option) \<Rightarrow> 'a list \<Rightarrow> 's \<Rightarrow> 's option" where
  "forEachM f [] s = Some s"
| "forEachM f (x # xs) s = (case f x s of None \<Rightarrow> None | Some s' \<Rightarrow> forEachM f xs s')"

text \<open>
  The callback of \<^verbatim>\<open>students.map\<close>: the working copy starts as a deep copy of the
  student's data, and the slots are visited in order with their index, the subjects inside.
\<close>

definition imputeStudent ::
  "algorithmType \<Rightarrow> (nat \<Rightarrow> real) \<Rightarrow> student list \<Rightarrow> timeSlot list \<Rightarrow> subject list \<Rightarrow> student \<Rightarrow>
   (string \<times> string \<times> methodTag \<times> real) list \<times> nat \<Rightarrow>
   (student \<times> (string \<times> string \<times> methodTag \<times> real) list \<times> nat) option" where
  "imputeStudent algorithm rnd students timeSlots subjects student lk =
     (case forEachM
             (\<lambda>tIdx. forEachM (imputeCell algorithm rnd students timeSlots subjects student tIdx)
                subjects)
             [0..<length timeSlots]
             \<lparr>newData = st_data student, newDetails = (\<lambda>t s. None), logs = fst lk, rng = snd lk\<rparr> of
        None \<Rightarrow> None
      | Some st \<Rightarrow>
          Some (student\<lparr>st_data := newData st, imputedDetails := newDetails st\<rparr>, logs st, rng st))"

text \<open>\<^verbatim>\<open>students.map\<close> over the cohort, threading the log and the random source.\<close>

fun imputeAll ::
  "algorithmType \<Rightarrow> (nat \<Rightarrow> real) \<Rightarrow> student list \<Rightarrow> timeSlot list \<Rightarrow> subject list \<Rightarrow> student list \<Rightarrow>
   (string \<times> string \<times> methodTag \<times> real) list \<times> nat \<Rightarrow>
   (student list \<times> (string \<times> string \<times> methodTag \<times> real) list \<times> nat) option" where
  "imputeAll algorithm rnd students timeSlots subjects [] lk = Some ([], lk)"
| "imputeAll algorithm rnd students timeSlots subjects (student # rest) lk =
     (case imputeStudent algorithm rnd students timeSlots subjects student lk of
        None \<Rightarrow> None
      | Some (student', lk') \<Rightarrow>
          (case imputeAll algorithm rnd students timeSlots subjects rest lk' of
             None \<Rightarrow> None
           | Some (rest', lk'') \<Rightarrow> Some (student' # rest', lk'')))"

text \<open>
  \<^verbatim>\<open>handleRunAlgorithm\<close>: the imputation pass over the cohort, then the re-scoring and
  the sort. The result is the new cohort, the log and the position of the random source;
  the first log line (the name of the algorithm) is left out.
\<close>

definition handleRunAlgorithm ::
  "algorithmType \<Rightarrow> (nat \<Rightarrow> real) \<Rightarrow> nat \<Rightarrow> student list \<Rightarrow> timeSlot list \<Rightarrow> subject list \<Rightarrow>
   (student list \<times> (string \<times> string \<times> methodTag \<times> real) list \<times> nat) option" where
  "handleRunAlgorithm algorithm rnd k students timeSlots subjects =
     (case imputeAll algorithm rnd students timeSlots subjects students ([], k) of
        None \<Rightarrow> None
      | Some (newStudents, lk) \<Rightarrow> Some (recalcScores newStudents timeSlots subjects, lk))"


section \<open>The reference mean of the specification\<close>

text \<open>
  The reference mean in the spec's words: the mean over the students with a present value
  of the reference subject, replaced by 1 when it is 0.
\<close>

definition referenceMeanSpec :: "student list \<Rightarrow> string \<Rightarrow> string \<Rightarrow> real" where
  "referenceMeanSpec students timeId refId =
     (let present = validValsOf students timeId refId;
          m = sum_list present / real (length present)
      in if m = 0 then 1 else m)"

section \<open>The invariant of the pass over one student\<close>

text \<open>
  \<open>definedPath algorithm subjects m ty\<close>: the method \<open>m\<close> and type \<open>ty\<close> recorded for an
  imputed cell are those of one of the paths of the pass: interpolation of a discrete gap,
  or, for a continuous gap, the estimator of the configured algorithm.
\<close>

definition definedPath :: "algorithmType \<Rightarrow> subject list \<Rightarrow> methodTag \<Rightarrow> missingType \<Rightarrow> bool" where
  "definedPath algorithm subjects m ty \<longleftrightarrow>
     (ty = TDiscrete \<and> m = TemporalInterpolation) \<or>
     (ty = TContinuous \<and>
        (case algorithm of
           RegressionAlg \<Rightarrow> m = MeanFill \<or> (\<exists>r \<in> set subjects. m = Regression (s_name r))
         | KnnAlg \<Rightarrow> m = KNN
         | BoxMullerAlg \<Rightarrow> m = BoxMuller))"

text \<open>
  \<open>cellWrittenBy \<dots> a s v d\<close>: the value \<open>v\<close> and the provenance \<open>d\<close> of the cell of slot id
  \<open>a\<close> and subject \<open>s\<close> were written by the pass: at a slot index with that id the
  student's cell was classified missing, \<open>estimateCell\<close> on a working copy that has every
  cell of the student's data returned the value \<open>x\<close>, the method and the type along a defined path, \<open>v\<close> is \<open>x\<close> rounded to the nearest
  integer and clamped to \<open>[0, full]\<close>, and \<open>d\<close> records \<open>v\<close>, the type and the method.
\<close>

definition cellWrittenBy ::
  "algorithmType \<Rightarrow> (nat \<Rightarrow> real) \<Rightarrow> student list \<Rightarrow> timeSlot list \<Rightarrow> subject list \<Rightarrow> student \<Rightarrow>
   string \<Rightarrow> subject \<Rightarrow> real \<Rightarrow> imputedDetail option \<Rightarrow> bool" where
  "cellWrittenBy algorithm rnd students timeSlots subjects student a s v d \<longleftrightarrow>
     (\<exists>x m ty tIdx nd k k' mt.
        tIdx < length timeSlots \<and> t_id (timeSlots ! tIdx) = a \<and>
        (\<forall>a' b'. st_data student a' b' \<noteq> None \<longrightarrow> nd a' b' = st_data student a' b') \<and>
        analyzeMissingType (st_data student) tIdx (s_id s) timeSlots = Some mt \<and> mt \<noteq> TNone \<and>
        estimateCell algorithm rnd students timeSlots subjects student nd tIdx s mt k =
          Some ((x, m), ty, k') \<and>
        definedPath algorithm subjects m ty \<and>
        v = max 0 (min (s_full s) (of_int (round x))) \<and>
        d = Some \<lparr>d_val = v, d_type = ty, d_method = m\<rparr>)"

text \<open>
  \<open>passInv W sd subjects D nd det\<close> relates the working copy \<open>nd\<close> and the provenance \<open>det\<close>
  to the student's data \<open>sd\<close> once the cells with keys in \<open>D\<close> have been visited: a cell
  that \<open>sd\<close> has is unchanged, a visited cell is filled, and a cell that \<open>sd\<close> lacks
  holds, if anything, a value that satisfies \<open>W\<close> for a subject with that key.
\<close>

definition passInv ::
  "(string \<Rightarrow> subject \<Rightarrow> real \<Rightarrow> imputedDetail option \<Rightarrow> bool) \<Rightarrow> scoreData \<Rightarrow> subject list \<Rightarrow>
   (string \<times> string) set \<Rightarrow> scoreData \<Rightarrow> (string \<Rightarrow> string \<Rightarrow> imputedDetail option) \<Rightarrow> bool" where
  "passInv W sd subjects D nd det \<longleftrightarrow>
     (\<forall>a b. sd a b \<noteq> None \<longrightarrow> nd a b = sd a b) \<and>
     (\<forall>(a, b) \<in> D. nd a b \<noteq> None) \<and>
     (\<forall>a b v. sd a b = None \<and> nd a b = Some v \<longrightarrow>
        (\<exists>s \<in> set subjects. s_id s = b \<and> W a s v (det a b)))"

section \<open>Sample inputs\<close>

text \<open>
  Small cohorts on which the theorems below are instantiated. \<open>dataOf\<close> builds a score
  matrix from its present cells; every other cell is \<^verbatim>\<open>null\<close>. The slots and subjects
  are the first ones of \<^verbatim>\<open>DEFAULT_TIME_SLOTS\<close> and \<^verbatim>\<open>DEFAULT_SUBJECTS\<close>, with their labels
  and names in English.
\<close>

definition dataOf :: "(string \<times> string \<times> real) list \<Rightarrow> scoreData" where
  "dataOf cells = foldl (\<lambda>m (t, s, v). setCell m t s v) (\<lambda>t s. None) cells"

definition mkStudent :: "string \<Rightarrow> (string \<times> string \<times> real) list \<Rightarrow> student" where
  "mkStudent i cells =
     \<lparr>st_id = i, st_name = i, st_data = dataOf cells, finalScore = 0,
      imputedDetails = (\<lambda>t s. None)\<rparr>"

definition slots3 :: "timeSlot list" where
  "slots3 = [\<lparr>t_id = ''t1'', t_label = ''exam 1'', t_weight = 1 / 10\<rparr>,
             \<lparr>t_id = ''t2'', t_label = ''exam 2'', t_weight = 15 / 100\<rparr>,
             \<lparr>t_id = ''t3'', t_label = ''midterm'', t_weight = 2 / 10\<rparr>]"

definition slot1 :: "timeSlot list" where
  "slot1 = [\<lparr>t_id = ''t1'', t_label = ''exam 1'', t_weight = 1\<rparr>]"

definition subX1 :: subject where
  "subX1 = \<lparr>s_id = ''x1'', s_name = ''chinese'', s_weight = 14 / 100, s_full = 150, s_type = ''main''\<rparr>"

definition subX2 :: subject where
  "subX2 = \<lparr>s_id = ''x2'', s_name = ''maths'', s_weight = 13 / 100, s_full = 150, s_type = ''main''\<rparr>"

text \<open>One missing cell between two present ones; and a run of two that starts at the first slot.\<close>

definition interiorGap :: scoreData where
  "interiorGap = dataOf [(''t1'', ''x1'', 80), (''t3'', ''x1'', 90)]"

definition leadingGap :: scoreData where
  "leadingGap = dataOf [(''t3'', ''x1'', 90)]"

text \<open>Three students with the same score in both subjects; and three with 70, 80 and 90 in both.\<close>

definition flatCohort :: "student list" where
  "flatCohort =
     [mkStudent ''o1'' [(''t1'', ''x1'', 80), (''t1'', ''x2'', 80)],
      mkStudent ''o2'' [(''t1'', ''x1'', 80), (''t1'', ''x2'', 80)],
      mkStudent ''o3'' [(''t1'', ''x1'', 80), (''t1'', ''x2'', 80)]]"

definition twinCohort :: "student list" where
  "twinCohort =
     [mkStudent ''o1'' [(''t1'', ''x1'', 70), (''t1'', ''x2'', 70)],
      mkStudent ''o2'' [(''t1'', ''x1'', 80), (''t1'', ''x2'', 80)],
      mkStudent ''o3'' [(''t1'', ''x1'', 90), (''t1'', ''x2'', 90)]]"

text \<open>
  Two students and one slot: the first lacks \<open>x1\<close> and has 60 in \<open>x2\<close>, the second has 50 in
  \<open>x1\<close> and lacks \<open>x2\<close>.
\<close>

definition crossCohort :: "student list" where
  "crossCohort =
     [mkStudent ''o1'' [(''t1'', ''x2'', 60)],
      mkStudent ''o2'' [(''t1'', ''x1'', 50)]]"

text \<open>A random source that always returns one half.\<close>

definition halfSource :: "nat \<Rightarrow> real" where
  "halfSource k = 1 / 2"

text \<open>
  A fourth slot, the state in which the pass over a student starts, a student with 80, a
  missing cell and 90 in \<open>x1\<close> over three slots, and one with 80, two missing cells and 90
  over four slots.
\<close>

definition slots4 :: "timeSlot list" where
  "slots4 = slots3 @ [\<lparr>t_id = ''t4'', t_label = ''exam 3'', t_weight = 15 / 100\<rparr>]"

definition startPass :: "scoreData \<Rightarrow> pass" where
  "startPass sd = \<lparr>newData = sd, newDetails = (\<lambda>t s. None), logs = [], rng = 0\<rparr>"

definition gapStudent :: student where
  "gapStudent = mkStudent ''o1'' [(''t1'', ''x1'', 80), (''t3'', ''x1'', 90)]"

definition pairStudent :: student where
  "pairStudent = mkStudent ''o1'' [(''t1'', ''x1'', 80), (''t4'', ''x1'', 90)]"

text \<open>
  Cohorts whose first student has no score at all: with one classmate who has 40 and 60,
  and with three classmates who have (10, 20), (40, 60) and (40, 70).
\<close>

definition blankCohort :: "student list" where
  "blankCohort =
     [mkStudent ''o1'' [],
      mkStudent ''o2'' [(''t1'', ''x1'', 40), (''t1'', ''x2'', 60)]]"

definition knnCohort :: "student list" where
  "knnCohort =
     [mkStudent ''o1'' [],
      mkStudent ''o2'' [(''t1'', ''x1'', 10), (''t1'', ''x2'', 20)],
      mkStudent ''o3'' [(''t1'', ''x1'', 40), (''t1'', ''x2'', 60)],
      mkStudent ''o4'' [(''t1'', ''x1'', 40), (''t1'', ''x2'', 70)]]"


section \<open>Properties of the gap classifier\<close>

lemma scanBack_run:
  "\<exists>lo \<le> n. (\<forall>k. lo \<le> k \<and> k < n \<longrightarrow> sd (t_id (ts ! k)) subId = None) \<and>
     (lo = 0 \<or> sd (t_id (ts ! (lo - 1))) subId \<noteq> None) \<and>
     scanBack sd ts subId n len = len + (n - lo)"
proof (induction n arbitrary: len)
  case 0
  then show ?case by simp
next
  case (Suc n)
  show ?case
  proof (cases "sd (t_id (ts ! n)) subId = None")
    case True
    from Suc.IH [of "Suc len"] obtain lo where lo: "lo \<le> n"
      "\<forall>k. lo \<le> k \<and> k < n \<longrightarrow> sd (t_id (ts ! k)) subId = None"
      "lo = 0 \<or> sd (t_id (ts ! (lo - 1))) subId \<noteq> None"
      "scanBack sd ts subId n (Suc len) = Suc len + (n - lo)" by blast
    have "\<forall>k. lo \<le> k \<and> k < Suc n \<longrightarrow> sd (t_id (ts ! k)) subId = None"
      using lo(2) True by (auto simp: less_Suc_eq)
    moreover have "scanBack sd ts subId (Suc n) len = len + (Suc n - lo)"
      using True lo(1,4) by simp
    ultimately show ?thesis using lo(1,3) by (intro exI [of _ lo]) simp
  next
    case False
    then show ?thesis by (intro exI [of _ "Suc n"]) auto
  qed
qed

lemma scanFwd_run:
  "j \<le> length ts \<Longrightarrow>
   \<exists>h \<ge> j. h \<le> length ts \<and> (\<forall>k. j \<le> k \<and> k < h \<longrightarrow> sd (t_id (ts ! k)) subId = None) \<and>
     (h = length ts \<or> sd (t_id (ts ! h)) subId \<noteq> None) \<and>
     scanFwd sd ts subId j len = len + (h - j)"
proof (induction sd ts subId j len rule: scanFwd.induct)
  case (1 sd ts subId j len)
  show ?case
  proof (cases "j < length ts \<and> sd (t_id (ts ! j)) subId = None")
    case True
    then have "Suc j \<le> length ts" by simp
    from "1.IH" [OF True this] obtain h where h: "Suc j \<le> h" "h \<le> length ts"
      "\<forall>k. Suc j \<le> k \<and> k < h \<longrightarrow> sd (t_id (ts ! k)) subId = None"
      "h = length ts \<or> sd (t_id (ts ! h)) subId \<noteq> None"
      "scanFwd sd ts subId (Suc j) (Suc len) = Suc len + (h - Suc j)" by blast
    have "\<forall>k. j \<le> k \<and> k < h \<longrightarrow> sd (t_id (ts ! k)) subId = None"
    proof (intro allI impI)
      fix k assume "j \<le> k \<and> k < h"
      then have "k = j \<or> (Suc j \<le> k \<and> k < h)" by arith
      then show "sd (t_id (ts ! k)) subId = None" using True h(3) by auto
    qed
    moreover have "scanFwd sd ts subId j len = len + (h - j)"
      using True h(1,5) by (subst scanFwd.simps) simp
    ultimately show ?thesis using h(1,2,4) by (intro exI [of _ h]) simp
  next
    case False
    then have "scanFwd sd ts subId j len = len" by (subst scanFwd.simps) auto
    then show ?thesis using False "1.prems" by (intro exI [of _ j]) auto
  qed
qed

lemma scanBack_gap:
  assumes "lo \<le> n" "\<forall>k. lo \<le> k \<and> k < n \<longrightarrow> sd (t_id (ts ! k)) subId = None"
    "lo = 0 \<or> sd (t_id (ts ! (lo - 1))) subId \<noteq> None"
  shows "scanBack sd ts subId n len = len + (n - lo)"
  using assms
proof (induction n arbitrary: len)
  case 0
  then show ?case by simp
next
  case (Suc n)
  show ?case
  proof (cases "lo = Suc n")
    case True
    then have "sd (t_id (ts ! n)) subId \<noteq> None" using Suc.prems(3) by simp
    then show ?thesis using True by auto
  next
    case False
    then have le: "lo \<le> n" using Suc.prems(1) by simp
    then have abs: "sd (t_id (ts ! n)) subId = None" using Suc.prems(2) by simp
    have "scanBack sd ts subId n (Suc len) = Suc len + (n - lo)"
      using Suc.IH [of "Suc len"] le Suc.prems(2,3) by simp
    then show ?thesis using abs le by simp
  qed
qed

lemma scanFwd_gap:
  assumes "j \<le> h" "h \<le> length ts"
    "\<forall>k. j \<le> k \<and> k < h \<longrightarrow> sd (t_id (ts ! k)) subId = None"
    "h = length ts \<or> sd (t_id (ts ! h)) subId \<noteq> None"
  shows "scanFwd sd ts subId j len = len + (h - j)"
  using assms
proof (induction "h - j" arbitrary: j len)
  case 0
  then have "j = h" by simp
  then have "\<not> (j < length ts \<and> sd (t_id (ts ! j)) subId = None)"
    using "0.prems"(4) by auto
  then have "scanFwd sd ts subId j len = len" by (subst scanFwd.simps) auto
  then show ?case using \<open>j = h\<close> by simp
next
  case (Suc d)
  then have lt: "j < h" by simp
  then have cond: "j < length ts \<and> sd (t_id (ts ! j)) subId = None"
    using Suc.prems(2,3) by simp
  have d: "d = h - Suc j" using Suc.hyps(2) by simp
  have "scanFwd sd ts subId (Suc j) (Suc len) = Suc len + (h - Suc j)"
    using Suc.hyps(1) [of "Suc j" "Suc len"] d lt Suc.prems(2,3,4) by simp
  then show ?case using cond lt by (subst scanFwd.simps) simp
qed

lemma analyzeMissingType_gap:
  assumes "isGap sd ts subId lo hi" "lo \<le> i" "i \<le> hi"
  shows "analyzeMissingType sd i subId ts =
    Some (if 2 < hi - lo + 1 \<or> i = 0 \<or> i = length ts - 1 then TContinuous else TDiscrete)"
proof -
  from assms have hi: "hi < length ts" and
    run: "\<forall>k \<in> {lo..hi}. sd (t_id (ts ! k)) subId = None" and
    lo_max: "lo = 0 \<or> sd (t_id (ts ! (lo - 1))) subId \<noteq> None" and
    hi_max: "Suc hi = length ts \<or> sd (t_id (ts ! Suc hi)) subId \<noteq> None"
    by (simp_all add: isGap_def)
  have i: "i < length ts" using hi assms(3) by simp
  have abs: "sd (t_id (ts ! i)) subId = None" using run assms(2,3) by simp
  have "\<forall>k. lo \<le> k \<and> k < i \<longrightarrow> sd (t_id (ts ! k)) subId = None"
    using run assms(3) by simp
  then have bwd: "scanBack sd ts subId i 1 = 1 + (i - lo)"
    using scanBack_gap [of lo i sd ts subId 1] assms(2) lo_max by simp
  have "\<forall>k. Suc i \<le> k \<and> k < Suc hi \<longrightarrow> sd (t_id (ts ! k)) subId = None"
    using run assms(2) by simp
  then have fwd: "scanFwd sd ts subId (Suc i) (1 + (i - lo)) = 1 + (i - lo) + (Suc hi - Suc i)"
    using scanFwd_gap [of "Suc i" "Suc hi" ts sd subId] hi assms(3) hi_max by simp
  have len: "1 + (i - lo) + (Suc hi - Suc i) = hi - lo + 1" using assms(2,3) by simp
  have ml: "scanFwd sd ts subId (Suc i) (scanBack sd ts subId i 1) = hi - lo + 1"
    using bwd fwd len by simp
  show ?thesis
    unfolding analyzeMissingType_def Let_def ml using i abs by simp
qed

lemma gap_exists:
  assumes "i < length ts" "sd (t_id (ts ! i)) subId = None"
  shows "\<exists>lo hi. isGap sd ts subId lo hi \<and> lo \<le> i \<and> i \<le> hi"
proof -
  from scanBack_run [of i sd ts subId 0] obtain lo where lo: "lo \<le> i"
    "\<forall>k. lo \<le> k \<and> k < i \<longrightarrow> sd (t_id (ts ! k)) subId = None"
    "lo = 0 \<or> sd (t_id (ts ! (lo - 1))) subId \<noteq> None" by auto
  from scanFwd_run [of "Suc i" ts sd subId 0] assms(1) obtain h where h: "Suc i \<le> h"
    "h \<le> length ts" "\<forall>k. Suc i \<le> k \<and> k < h \<longrightarrow> sd (t_id (ts ! k)) subId = None"
    "h = length ts \<or> sd (t_id (ts ! h)) subId \<noteq> None" by auto
  have "\<forall>k \<in> {lo..h - 1}. sd (t_id (ts ! k)) subId = None"
  proof
    fix k assume "k \<in> {lo..h - 1}"
    then have "(lo \<le> k \<and> k < i) \<or> k = i \<or> (Suc i \<le> k \<and> k < h)" using h(1) by auto
    then show "sd (t_id (ts ! k)) subId = None" using lo(2) h(3) assms(2) by auto
  qed
  then have "isGap sd ts subId lo (h - 1)"
    using lo(1,3) h(1,2,4) by (auto simp: isGap_def)
  then show ?thesis using lo(1) h(1) by (intro exI [of _ lo] exI [of _ "h - 1"]) simp
qed

section \<open>Claims about analyzeMissingType\<close>

text \<open>
  Claim C4. For an index inside the sequence, the classifier returns \<open>none\<close> exactly when
  the cell is present. For an absent cell there is a maximal run of absent cells around it,
  and for that run the result is \<open>continuous\<close> exactly when the run is longer than 2 or the
  index is the first or the last one, and \<open>discrete\<close> exactly otherwise. A single missing
  cell strictly between two present cells is \<open>discrete\<close>.
\<close>

theorem C4_classify:
  assumes "timeIdx < length timeSlots"
  shows "(analyzeMissingType sd timeIdx subId timeSlots = Some TNone \<longleftrightarrow>
            sd (t_id (timeSlots ! timeIdx)) subId \<noteq> None) \<and>
         (sd (t_id (timeSlots ! timeIdx)) subId = None \<longrightarrow>
            (\<exists>lo hi. isGap sd timeSlots subId lo hi \<and> lo \<le> timeIdx \<and> timeIdx \<le> hi) \<and>
            (\<forall>lo hi. isGap sd timeSlots subId lo hi \<and> lo \<le> timeIdx \<and> timeIdx \<le> hi \<longrightarrow>
               (analyzeMissingType sd timeIdx subId timeSlots = Some TContinuous \<longleftrightarrow>
                  2 < hi - lo + 1 \<or> timeIdx = 0 \<or> timeIdx = length timeSlots - 1) \<and>
               (analyzeMissingType sd timeIdx subId timeSlots = Some TDiscrete \<longleftrightarrow>
                  \<not> (2 < hi - lo + 1 \<or> timeIdx = 0 \<or> timeIdx = length timeSlots - 1)))) \<and>
         (0 < timeIdx \<and> timeIdx + 1 < length timeSlots \<and>
          sd (t_id (timeSlots ! timeIdx)) subId = None \<and>
          sd (t_id (timeSlots ! (timeIdx - 1))) subId \<noteq> None \<and>
          sd (t_id (timeSlots ! (timeIdx + 1))) subId \<noteq> None \<longrightarrow>
            analyzeMissingType sd timeIdx subId timeSlots = Some TDiscrete)"
proof (intro conjI impI allI)
  show "analyzeMissingType sd timeIdx subId timeSlots = Some TNone \<longleftrightarrow>
          sd (t_id (timeSlots ! timeIdx)) subId \<noteq> None"
    using assms by (auto simp: analyzeMissingType_def Let_def)
next
  assume "sd (t_id (timeSlots ! timeIdx)) subId = None"
  then show "\<exists>lo hi. isGap sd timeSlots subId lo hi \<and> lo \<le> timeIdx \<and> timeIdx \<le> hi"
    using assms by (rule gap_exists [rotated])
next
  fix lo hi
  assume "isGap sd timeSlots subId lo hi \<and> lo \<le> timeIdx \<and> timeIdx \<le> hi"
  then have *: "analyzeMissingType sd timeIdx subId timeSlots =
      Some (if 2 < hi - lo + 1 \<or> timeIdx = 0 \<or> timeIdx = length timeSlots - 1
            then TContinuous else TDiscrete)"
    using analyzeMissingType_gap [of sd timeSlots subId lo hi timeIdx] by simp
  show "analyzeMissingType sd timeIdx subId timeSlots = Some TContinuous \<longleftrightarrow>
          2 < hi - lo + 1 \<or> timeIdx = 0 \<or> timeIdx = length timeSlots - 1"
    unfolding * by simp
  show "analyzeMissingType sd timeIdx subId timeSlots = Some TDiscrete \<longleftrightarrow>
          \<not> (2 < hi - lo + 1 \<or> timeIdx = 0 \<or> timeIdx = length timeSlots - 1)"
    unfolding * by simp
next
  assume a: "0 < timeIdx \<and> timeIdx + 1 < length timeSlots \<and>
          sd (t_id (timeSlots ! timeIdx)) subId = None \<and>
          sd (t_id (timeSlots ! (timeIdx - 1))) subId \<noteq> None \<and>
          sd (t_id (timeSlots ! (timeIdx + 1))) subId \<noteq> None"
  then have "isGap sd timeSlots subId timeIdx timeIdx" by (simp add: isGap_def)
  from analyzeMissingType_gap [OF this] a
  show "analyzeMissingType sd timeIdx subId timeSlots = Some TDiscrete" by auto
qed

theorem C4_classify_witness:
  "interiorGap ''t1'' ''x1'' = Some 80 \<and> interiorGap ''t2'' ''x1'' = None \<and>
   interiorGap ''t3'' ''x1'' = Some 90 \<and>
   analyzeMissingType interiorGap 1 ''x1'' slots3 = Some TDiscrete \<and>
   analyzeMissingType interiorGap 0 ''x1'' slots3 = Some TNone"
proof -
  have len: "(1::nat) < length slots3" "(0::nat) < length slots3" by (simp_all add: slots3_def)
  have cells: "interiorGap ''t1'' ''x1'' = Some 80" "interiorGap ''t2'' ''x1'' = None"
    "interiorGap ''t3'' ''x1'' = Some 90"
    by (simp_all add: interiorGap_def dataOf_def setCell_def)
  have at: "interiorGap (t_id (slots3 ! 1)) ''x1'' = None"
    "interiorGap (t_id (slots3 ! (1 - 1))) ''x1'' \<noteq> None"
    "interiorGap (t_id (slots3 ! (1 + 1))) ''x1'' \<noteq> None"
    "interiorGap (t_id (slots3 ! 0)) ''x1'' \<noteq> None"
    using cells by (simp_all add: slots3_def)
  have "analyzeMissingType interiorGap 1 ''x1'' slots3 = Some TDiscrete"
    using C4_classify [OF len(1), of interiorGap "''x1''"] at(1,2,3) by (simp add: slots3_def)
  moreover have "analyzeMissingType interiorGap 0 ''x1'' slots3 = Some TNone"
    using C4_classify [OF len(2), of interiorGap "''x1''"] at(4) by blast
  ultimately show ?thesis using cells by simp
qed

lemma ball_zero_one: "(\<forall>k \<in> {0..Suc 0}. P k) \<longleftrightarrow> P 0 \<and> P (Suc 0)"
proof -
  have "{0..Suc 0} = {0, Suc 0}" by auto
  then show ?thesis by simp
qed

lemma leadingGap_isGap: "isGap leadingGap slots3 ''x1'' 0 1"
  by (simp add: isGap_def leadingGap_def slots3_def dataOf_def setCell_def ball_zero_one)

text \<open>
  Claim C2 as stated fails: in a run of two absent cells that starts at the first slot
  (\<open>t1\<close> and \<open>t2\<close> absent, \<open>t3\<close> present), the cell of index 1 is classified \<open>discrete\<close>,
  although its gap touches the first slot.
\<close>

theorem C2_boundary_run_counterexample:
  "map t_id slots3 = [''t1'', ''t2'', ''t3''] \<and>
   leadingGap ''t1'' ''x1'' = None \<and> leadingGap ''t2'' ''x1'' = None \<and>
   leadingGap ''t3'' ''x1'' = Some 90 \<and>
   analyzeMissingType leadingGap 1 ''x1'' slots3 = Some TDiscrete"
proof -
  have "analyzeMissingType leadingGap 1 ''x1'' slots3 = Some TDiscrete"
    using analyzeMissingType_gap [OF leadingGap_isGap, of 1] by (simp add: slots3_def)
  then show ?thesis by (simp add: slots3_def leadingGap_def dataOf_def setCell_def)
qed

text \<open>
  Claim C2, amended. For a missing cell at index \<open>timeIdx\<close> of a gap \<open>lo..hi\<close>: if the cell
  itself is the first or the last slot it is \<open>continuous\<close>; it is \<open>discrete\<close> exactly when
  the run has length at most 2 and the cell itself is neither the first nor the last slot;
  and every missing cell that is not \<open>discrete\<close> is \<open>continuous\<close>.
\<close>

theorem C2_cell_at_boundary:
  assumes "isGap sd timeSlots subId lo hi" "lo \<le> timeIdx" "timeIdx \<le> hi"
  shows "(timeIdx = 0 \<or> timeIdx = length timeSlots - 1 \<longrightarrow>
            analyzeMissingType sd timeIdx subId timeSlots = Some TContinuous) \<and>
         (analyzeMissingType sd timeIdx subId timeSlots = Some TDiscrete \<longleftrightarrow>
            hi - lo + 1 \<le> 2 \<and> timeIdx \<noteq> 0 \<and> timeIdx \<noteq> length timeSlots - 1) \<and>
         (analyzeMissingType sd timeIdx subId timeSlots \<noteq> Some TDiscrete \<longrightarrow>
            analyzeMissingType sd timeIdx subId timeSlots = Some TContinuous)"
  unfolding analyzeMissingType_gap [OF assms] by auto

theorem C2_cell_at_boundary_witness:
  "leadingGap ''t1'' ''x1'' = None \<and> leadingGap ''t2'' ''x1'' = None \<and>
   leadingGap ''t3'' ''x1'' = Some 90 \<and>
   analyzeMissingType leadingGap 0 ''x1'' slots3 = Some TContinuous"
proof -
  from C2_cell_at_boundary [OF leadingGap_isGap order_refl zero_le_one]
  have "analyzeMissingType leadingGap 0 ''x1'' slots3 = Some TContinuous"
    by (elim conjE) simp
  then show ?thesis by (simp add: leadingGap_def dataOf_def setCell_def)
qed

section \<open>Claims about recalcScores\<close>

lemma foldl_add_sum_list: "foldl (\<lambda>acc x. acc + f x) (a::real) xs = a + sum_list (map f xs)"
  by (induction xs arbitrary: a) simp_all

lemma totalScore_sum:
  "totalScore s tSlots subs =
     (\<Sum>t\<leftarrow>tSlots. t_weight t * (\<Sum>sub\<leftarrow>subs. cellOrZero s t sub * s_weight sub))"
  by (simp add: totalScore_def foldl_add_sum_list mult.commute)

lemma insertCmp_set: "set (insertCmp cmp x xs) = insert x (set xs)"
  by (induction xs) auto

lemma sortCmp_set: "set (sortCmp cmp xs) = set xs"
  by (induction xs) (simp_all add: insertCmp_set)

lemma insertCmp_sorted:
  "sorted_wrt (\<lambda>a b. finalScore b \<le> finalScore a) xs \<Longrightarrow>
   sorted_wrt (\<lambda>a b. finalScore b \<le> finalScore a) (insertCmp byFinalScoreDesc x xs)"
  by (induction xs) (auto simp: insertCmp_set byFinalScoreDesc_def)

lemma sortCmp_sorted:
  "sorted_wrt (\<lambda>a b. finalScore b \<le> finalScore a) (sortCmp byFinalScoreDesc xs)"
  by (induction xs) (simp_all add: insertCmp_sorted)

lemma insertCmp_filter_other:
  "\<not> P x \<Longrightarrow> filter P (insertCmp cmp x xs) = filter P xs"
  by (induction xs) simp_all

lemma insertCmp_filter_same:
  "sorted_wrt (\<lambda>a b. finalScore b \<le> finalScore a) xs \<Longrightarrow>
   filter (\<lambda>s. finalScore s = finalScore x) (insertCmp byFinalScoreDesc x xs) =
     x # filter (\<lambda>s. finalScore s = finalScore x) xs"
proof (induction xs)
  case Nil
  then show ?case by simp
next
  case (Cons y ys)
  show ?case
  proof (cases "byFinalScoreDesc x y \<le> 0")
    case True
    then show ?thesis by simp
  next
    case False
    then have "finalScore y \<noteq> finalScore x" by (simp add: byFinalScoreDesc_def)
    then show ?thesis using False Cons by simp
  qed
qed

lemma sortCmp_stable:
  "filter (\<lambda>s. finalScore s = v) (sortCmp byFinalScoreDesc xs) = filter (\<lambda>s. finalScore s = v) xs"
proof (induction xs)
  case Nil
  then show ?case by simp
next
  case (Cons x xs)
  show ?case
  proof (cases "finalScore x = v")
    case True
    then show ?thesis
      using insertCmp_filter_same [OF sortCmp_sorted, of x xs] Cons by simp
  next
    case False
    then show ?thesis using Cons by (simp add: insertCmp_filter_other)
  qed
qed

lemma insertCmp_head:
  "xs = [] \<or> cmp x (hd xs) \<le> 0 \<Longrightarrow> insertCmp cmp x xs = x # xs"
  by (cases xs) auto

lemma sortCmp_sorted_id:
  "sorted_wrt (\<lambda>a b. cmp a b \<le> 0) xs \<Longrightarrow> sortCmp cmp xs = xs"
proof (induction xs)
  case Nil
  then show ?case by simp
next
  case (Cons x xs)
  then have "sortCmp cmp xs = xs" by simp
  moreover have "xs = [] \<or> cmp x (hd xs) \<le> 0" using Cons.prems by (cases xs) auto
  ultimately show ?case by (simp add: insertCmp_head)
qed

lemma insertCmp_mset: "mset (insertCmp cmp x xs) = add_mset x (mset xs)"
  by (induction xs) simp_all

lemma sortCmp_mset: "mset (sortCmp cmp xs) = mset xs"
  by (induction xs) (simp_all add: insertCmp_mset)

lemma totalScore_finalScore_update [simp]:
  "totalScore (s\<lparr>finalScore := x\<rparr>) tSlots subs = totalScore s tSlots subs"
  by (simp add: totalScore_def cellOrZero_def)

text \<open>
  Claim C7. The cohort returned by the aggregator consists of the given students, each with
  \<open>finalScore\<close> set to the sum over the time slots \<open>t\<close> of \<open>t.weight\<close> times the sum over the
  subjects \<open>s\<close> of \<open>v * s.weight\<close>, where \<open>v\<close> is the value of the cell, or 0 for an absent
  cell.
\<close>

theorem C7_finalScore:
  "mset (recalcScores studentList tSlots subs) =
     image_mset
       (\<lambda>s. s\<lparr>finalScore :=
          (\<Sum>t\<leftarrow>tSlots. t_weight t *
             (\<Sum>sub\<leftarrow>subs.
                (case st_data s (t_id t) (s_id sub) of None \<Rightarrow> 0 | Some v \<Rightarrow> v) * s_weight sub))\<rparr>)
       (mset studentList)"
  by (simp add: recalcScores_def sortCmp_mset totalScore_sum cellOrZero_def)

text \<open>
  Claim C8. The cohort returned by the aggregator is non-increasing in \<open>finalScore\<close>, and
  the students with any one score \<open>v\<close> appear in the order in which the given list has them.
\<close>

theorem C8_sorted_stable:
  "sorted_wrt (\<lambda>a b. finalScore b \<le> finalScore a) (recalcScores studentList tSlots subs) \<and>
   (\<forall>v. filter (\<lambda>s. finalScore s = v) (recalcScores studentList tSlots subs) =
        filter (\<lambda>s. finalScore s = v)
          (map (\<lambda>s. s\<lparr>finalScore := totalScore s tSlots subs\<rparr>) studentList))"
  by (simp add: recalcScores_def sortCmp_sorted sortCmp_stable)

text \<open>
  Claim C9. Scoring the scored cohort again with the same slots and subjects returns the
  same list: the same students with the same \<open>finalScore\<close>, in the same order.
\<close>

theorem C9_idempotent:
  "recalcScores (recalcScores studentList tSlots subs) tSlots subs =
     recalcScores studentList tSlots subs"
proof -
  let ?f = "\<lambda>s. s\<lparr>finalScore := totalScore s tSlots subs\<rparr>"
  let ?ys = "sortCmp byFinalScoreDesc (map ?f studentList)"
  have same: "?f s = s" if "s \<in> set ?ys" for s
  proof -
    from that obtain s0 where "s = ?f s0" by (auto simp: sortCmp_set)
    then show ?thesis by simp
  qed
  have m: "map ?f ?ys = ?ys" by (rule map_idI) (rule same)
  have "sortCmp byFinalScoreDesc ?ys = ?ys"
  proof (rule sortCmp_sorted_id)
    have "sorted_wrt (\<lambda>a b. finalScore b \<le> finalScore a) ?ys" by (rule sortCmp_sorted)
    then show "sorted_wrt (\<lambda>a b. byFinalScoreDesc a b \<le> 0) ?ys"
      by (simp add: byFinalScoreDesc_def)
  qed
  then show ?thesis unfolding recalcScores_def Let_def m .
qed

section \<open>Claims about calculateCorrelation\<close>

lemma validPairs_flat:
  "validPairsOf flatCohort ''x1'' ''x2'' ''t1'' = [(80, 80), (80, 80), (80, 80)]"
  by (simp add: validPairsOf_def flatCohort_def mkStudent_def dataOf_def setCell_def
      List.map_filter_simps)

lemma validPairs_twin:
  "validPairsOf twinCohort ''x1'' ''x2'' ''t1'' = [(70, 70), (80, 80), (90, 90)]"
  by (simp add: validPairsOf_def twinCohort_def mkStudent_def dataOf_def setCell_def
      List.map_filter_simps)

lemma sum_sq_zero_iff:
  "(\<Sum>x\<leftarrow>xs. (f x :: real)\<^sup>2) = 0 \<longleftrightarrow> (\<forall>x \<in> set xs. f x = 0)"
proof (induction xs)
  case Nil
  then show ?case by simp
next
  case (Cons a xs)
  have "0 \<le> (\<Sum>x\<leftarrow>xs. (f x)\<^sup>2)" by (rule sum_list_nonneg) auto
  then have "(f a)\<^sup>2 + (\<Sum>x\<leftarrow>xs. (f x)\<^sup>2) = 0 \<longleftrightarrow> (f a)\<^sup>2 = 0 \<and> (\<Sum>x\<leftarrow>xs. (f x)\<^sup>2) = 0"
    by (intro add_nonneg_eq_0_iff) simp_all
  then show ?case using Cons by simp
qed

lemma den_pos_of_varying:
  assumes "\<not> (\<exists>c. \<forall>p \<in> set ps. f p = (c::real))"
  shows "0 < foldl (\<lambda>d p. d + (f p - m)\<^sup>2) 0 ps"
proof -
  have "(\<Sum>p\<leftarrow>ps. (f p - m)\<^sup>2) \<noteq> 0"
  proof
    assume "(\<Sum>p\<leftarrow>ps. (f p - m)\<^sup>2) = 0"
    then have "\<forall>p \<in> set ps. f p = m" by (simp add: sum_sq_zero_iff)
    then show False using assms by blast
  qed
  moreover have "0 \<le> (\<Sum>p\<leftarrow>ps. (f p - m)\<^sup>2)" by (rule sum_list_nonneg) auto
  ultimately show ?thesis by (simp add: foldl_add_sum_list)
qed

text \<open>
  Claim C6 as stated fails: three students with the same score 80 in both subjects have
  identical series, and the zero-variance guard returns 0, not 1.
\<close>

theorem C6_constant_series_counterexample:
  "validPairsOf flatCohort ''x1'' ''x2'' ''t1'' = [(80, 80), (80, 80), (80, 80)] \<and>
   calculateCorrelation flatCohort ''x1'' ''x2'' ''t1'' = 0"
  by (simp add: calculateCorrelation_def validPairs_flat Let_def)

text \<open>
  Claim C6, amended. The correlation is 0 when fewer than 3 students have both subjects
  present, and 0 when the sum of squared deviations that the function accumulates for
  either sample (\<open>denA\<close> or \<open>denB\<close>) is 0. When at least 3 valid pairs exist, the two scores
  agree in every pair and the scores are not all equal, it is 1.
\<close>

theorem C6_correlation:
  "(length (validPairsOf students subA subB timeId) < 3 \<longrightarrow>
      calculateCorrelation students subA subB timeId = 0) \<and>
   (denA (validPairsOf students subA subB timeId) = 0 \<or>
    denB (validPairsOf students subA subB timeId) = 0 \<longrightarrow>
      calculateCorrelation students subA subB timeId = 0) \<and>
   (3 \<le> length (validPairsOf students subA subB timeId) \<and>
    (\<forall>p \<in> set (validPairsOf students subA subB timeId). fst p = snd p) \<and>
    \<not> (\<exists>c. \<forall>p \<in> set (validPairsOf students subA subB timeId). fst p = c) \<longrightarrow>
      calculateCorrelation students subA subB timeId = 1)"
proof (intro conjI impI)
  let ?ps = "validPairsOf students subA subB timeId"
  show "calculateCorrelation students subA subB timeId = 0" if "length ?ps < 3"
    using that by (simp add: calculateCorrelation_def)
  show "calculateCorrelation students subA subB timeId = 0"
    if "denA ?ps = 0 \<or> denB ?ps = 0"
    using that by (auto simp: calculateCorrelation_def denA_def denB_def Let_def)
  show "calculateCorrelation students subA subB timeId = 1"
    if h: "3 \<le> length ?ps \<and> (\<forall>p \<in> set ?ps. fst p = snd p) \<and>
       \<not> (\<exists>c. \<forall>p \<in> set ?ps. fst p = c)"
  proof -
    define m where "m = foldl (\<lambda>s p. s + fst p) 0 ?ps / real (length ?ps)"
    define d where "d = foldl (\<lambda>d p. d + (fst p - m)\<^sup>2) 0 ?ps"
    have eq: "\<forall>p \<in> set ?ps. snd p = fst p" using h by simp
    have mB: "foldl (\<lambda>s p. s + snd p) 0 ?ps / real (length ?ps) = m"
      using eq by (simp add: m_def foldl_add_sum_list cong: map_cong)
    have dB: "foldl (\<lambda>d p. d + (snd p - m)\<^sup>2) 0 ?ps = d"
      using eq by (simp add: d_def foldl_add_sum_list cong: map_cong)
    have num: "foldl (\<lambda>n p. n + (fst p - m) * (snd p - m)) 0 ?ps = d"
      using eq by (simp add: d_def foldl_add_sum_list power2_eq_square cong: map_cong)
    have "\<not> (\<exists>c. \<forall>p \<in> set ?ps. fst p = c)" using h by blast
    then have pos: "0 < d" unfolding d_def by (rule den_pos_of_varying)
    have nlt: "\<not> length ?ps < 3" using h by simp
    have "calculateCorrelation students subA subB timeId =
        (if d = 0 \<or> d = 0 then 0 else d / sqrt (d * d))"
      unfolding calculateCorrelation_def Let_def
      by (simp only: nlt if_False m_def [symmetric] mB dB num d_def [symmetric])
    also have "\<dots> = 1" using pos by simp
    finally show ?thesis .
  qed
qed

theorem C6_correlation_witness:
  "validPairsOf twinCohort ''x1'' ''x2'' ''t1'' = [(70, 70), (80, 80), (90, 90)] \<and>
   calculateCorrelation twinCohort ''x1'' ''x2'' ''t1'' = 1 \<and>
   validPairsOf (take 2 twinCohort) ''x1'' ''x2'' ''t1'' = [(70, 70), (80, 80)] \<and>
   calculateCorrelation (take 2 twinCohort) ''x1'' ''x2'' ''t1'' = 0 \<and>
   validPairsOf flatCohort ''x1'' ''x2'' ''t1'' = [(80, 80), (80, 80), (80, 80)] \<and>
   denA (validPairsOf flatCohort ''x1'' ''x2'' ''t1'') = 0 \<and>
   calculateCorrelation flatCohort ''x1'' ''x2'' ''t1'' = 0"
proof -
  have two: "validPairsOf (take 2 twinCohort) ''x1'' ''x2'' ''t1'' = [(70, 70), (80, 80)]"
    by (simp add: validPairsOf_def twinCohort_def mkStudent_def dataOf_def setCell_def
        List.map_filter_simps)
  have a: "3 \<le> length (validPairsOf twinCohort ''x1'' ''x2'' ''t1'') \<and>
   (\<forall>p \<in> set (validPairsOf twinCohort ''x1'' ''x2'' ''t1''). fst p = snd p) \<and>
   \<not> (\<exists>c. \<forall>p \<in> set (validPairsOf twinCohort ''x1'' ''x2'' ''t1''). fst p = c)"
    by (simp add: validPairs_twin)
  have b: "length (validPairsOf (take 2 twinCohort) ''x1'' ''x2'' ''t1'') < 3"
    by (simp add: two)
  have c: "denA (validPairsOf flatCohort ''x1'' ''x2'' ''t1'') = 0"
    by (simp add: validPairs_flat denA_def)
  note t1 = C6_correlation [of twinCohort "''x1''" "''x2''" "''t1''"]
  note t2 = C6_correlation [of "take 2 twinCohort" "''x1''" "''x2''" "''t1''"]
  note t3 = C6_correlation [of flatCohort "''x1''" "''x2''" "''t1''"]
  have "calculateCorrelation twinCohort ''x1'' ''x2'' ''t1'' = 1" using t1 a by blast
  moreover have "calculateCorrelation (take 2 twinCohort) ''x1'' ''x2'' ''t1'' = 0"
    using t2 b by blast
  moreover have "calculateCorrelation flatCohort ''x1'' ''x2'' ''t1'' = 0" using t3 c by blast
  ultimately show ?thesis using validPairs_twin validPairs_flat two c by simp
qed

section \<open>The imputation pass returns\<close>

lemma drawNonZero_returns:
  assumes "rnd m \<noteq> 0" "k \<le> m"
  shows "\<exists>u k'. drawNonZero rnd k = Some (u, k') \<and> u \<noteq> 0 \<and> k < k'"
  using assms
proof (induction "m - k" arbitrary: k)
  case 0
  then have "k = m" by simp
  then show ?case using "0.prems"(1) by (subst drawNonZero.simps) simp
next
  case (Suc d)
  show ?case
  proof (cases "rnd k = 0")
    case False
    then show ?thesis by (subst drawNonZero.simps) simp
  next
    case True
    have "d = m - Suc k" "Suc k \<le> m" using Suc.hyps(2) by simp_all
    from Suc.hyps(1) [OF this(1) Suc.prems(1) this(2)]
    obtain u k' where "drawNonZero rnd (Suc k) = Some (u, k')" "u \<noteq> 0" "Suc k < k'" by auto
    then show ?thesis using True by (subst drawNonZero.simps) simp
  qed
qed

lemma generateBoxMuller_returns:
  assumes "\<forall>n. \<exists>m\<ge>n. rnd m \<noteq> 0"
  shows "\<exists>v k'. generateBoxMuller mean std rnd k = Some (v, k')"
proof -
  from assms obtain m where "k \<le> m" "rnd m \<noteq> 0" by blast
  from drawNonZero_returns [of rnd m k] this
  obtain u k1 where u: "drawNonZero rnd k = Some (u, k1)" by auto
  from assms obtain m1 where "k1 \<le> m1" "rnd m1 \<noteq> 0" by blast
  from drawNonZero_returns [of rnd m1 k1] this
  obtain v k2 where v: "drawNonZero rnd k1 = Some (v, k2)" by auto
  show ?thesis by (simp add: generateBoxMuller_def u v Let_def)
qed

lemma fallbackEstimate_returns:
  assumes "algorithm = BoxMullerAlg \<longrightarrow> (\<forall>n. \<exists>m\<ge>n. rnd m \<noteq> 0)"
  shows "\<exists>r. fallbackEstimate algorithm rnd students subjects student nd time sub k = Some r"
proof (cases algorithm)
  case BoxMullerAlg
  with assms have "\<forall>n. \<exists>m\<ge>n. rnd m \<noteq> 0" by simp
  from generateBoxMuller_returns [OF this]
  obtain v k' where "generateBoxMuller (cohortMean students (t_id time) (s_id sub))
      (cohortStd students (t_id time) (s_id sub)) rnd k = Some (v, k')" by blast
  then show ?thesis using BoxMullerAlg by (simp add: fallbackEstimate_def)
next
  case RegressionAlg
  then show ?thesis by (simp add: fallbackEstimate_def)
next
  case KnnAlg
  then show ?thesis by (simp add: fallbackEstimate_def)
qed

lemma estimateCell_returns:
  assumes "algorithm = BoxMullerAlg \<longrightarrow> (\<forall>n. \<exists>m\<ge>n. rnd m \<noteq> 0)"
  shows "\<exists>r. estimateCell algorithm rnd students timeSlots subjects student nd tIdx sub mt k = Some r"
proof -
  obtain v m mt' k' where i: "interpolate rnd timeSlots nd tIdx sub mt k = ((v, m), mt', k')"
    by (metis prod.collapse)
  from fallbackEstimate_returns [OF assms]
  obtain r where "fallbackEstimate algorithm rnd students subjects student nd
      (timeSlots ! tIdx) sub k' = Some r" by blast
  then show ?thesis by (cases r) (simp add: estimateCell_def i)
qed

lemma analyzeMissingType_returns:
  assumes "tIdx < length timeSlots"
  shows "(sd (t_id (timeSlots ! tIdx)) subId \<noteq> None \<longrightarrow>
           analyzeMissingType sd tIdx subId timeSlots = Some TNone) \<and>
         (sd (t_id (timeSlots ! tIdx)) subId = None \<longrightarrow>
           analyzeMissingType sd tIdx subId timeSlots = Some TDiscrete \<or>
           analyzeMissingType sd tIdx subId timeSlots = Some TContinuous)"
  using assms by (simp add: analyzeMissingType_def Let_def)

lemma estimateCell_path:
  assumes "estimateCell algorithm rnd students timeSlots subjects student nd tIdx sub mt k =
      Some ((x, m), ty, k')" "mt \<noteq> TNone"
  shows "definedPath algorithm subjects m ty"
proof -
  obtain v0 m0 ty0 k0 where i: "interpolate rnd timeSlots nd tIdx sub mt k = ((v0, m0), ty0, k0)"
    by (metis prod.collapse)
  have i_cases: "(m0 = TemporalInterpolation \<and> ty0 = TDiscrete) \<or> (m0 = Unset \<and> ty0 = TContinuous)"
    using i assms(2)
    by (cases mt) (auto simp: interpolate_def Let_def split: if_splits option.splits)
  show ?thesis
  proof (cases "m0 = Unset")
    case False
    then have "m = TemporalInterpolation \<and> ty = TDiscrete"
      using assms(1) i i_cases by (auto simp: estimateCell_def)
    then show ?thesis by (simp add: definedPath_def)
  next
    case True
    then have ty0: "ty0 = TContinuous" using i_cases by auto
    from assms(1) i True obtain k1 where
      f: "fallbackEstimate algorithm rnd students subjects student nd (timeSlots ! tIdx) sub k0 =
        Some ((x, m), k1)" and ty: "ty = ty0"
      by (auto simp: estimateCell_def split: option.splits)
    have "case algorithm of
           RegressionAlg \<Rightarrow> m = MeanFill \<or> (\<exists>r \<in> set subjects. m = Regression (s_name r))
         | KnnAlg \<Rightarrow> m = KNN
         | BoxMullerAlg \<Rightarrow> m = BoxMuller"
    proof (cases algorithm)
      case BoxMullerAlg
      then show ?thesis using f by (auto simp: fallbackEstimate_def split: option.splits)
    next
      case KnnAlg
      then show ?thesis using f by (auto simp: fallbackEstimate_def knnEstimate_def Let_def)
    next
      case RegressionAlg
      let ?P = "\<lambda>s. s_id s \<noteq> s_id sub \<and> nd (t_id (timeSlots ! tIdx)) (s_id s) \<noteq> None"
      show ?thesis
      proof (cases "find ?P subjects")
        case None
        then show ?thesis using f RegressionAlg
          by (auto simp: fallbackEstimate_def regressionEstimate_def Let_def)
      next
        case (Some r)
        then have "r \<in> set subjects" by (auto simp: find_Some_iff)
        then show ?thesis using f RegressionAlg Some
          by (auto simp: fallbackEstimate_def regressionEstimate_def Let_def split: option.splits)
      qed
    qed
    then show ?thesis using ty ty0 by (simp add: definedPath_def)
  qed
qed

lemma estimateCell_continuous:
  assumes "estimateCell algorithm rnd students timeSlots subjects student nd tIdx sub TContinuous k =
      Some ((x, m), ty, k')"
  shows "ty = TContinuous"
  using assms by (auto simp: estimateCell_def interpolate_def split: option.splits)

text \<open>
  One cell of the pass: a cell that the student's data has is left alone; a missing one is
  overwritten in the working copy with the rounded, clamped value of \<open>estimateCell\<close>, and
  the provenance records that value with the type and the method.
\<close>

lemma imputeCell_step:
  assumes "tIdx < length timeSlots"
    and "algorithm = BoxMullerAlg \<longrightarrow> (\<forall>n. \<exists>m\<ge>n. rnd m \<noteq> 0)"
  shows "\<exists>st'. imputeCell algorithm rnd students timeSlots subjects student tIdx sub st = Some st' \<and>
      (if st_data student (t_id (timeSlots ! tIdx)) (s_id sub) \<noteq> None
       then st' = st
       else \<exists>x m ty k' mt.
          analyzeMissingType (st_data student) tIdx (s_id sub) timeSlots = Some mt \<and> mt \<noteq> TNone \<and>
          estimateCell algorithm rnd students timeSlots subjects student (newData st) tIdx sub mt
              (rng st) = Some ((x, m), ty, k') \<and>
          newData st' =
            setCell (newData st) (t_id (timeSlots ! tIdx)) (s_id sub) (roundClamp (s_full sub) x) \<and>
          newDetails st' =
            setCell (newDetails st) (t_id (timeSlots ! tIdx)) (s_id sub)
              \<lparr>d_val = roundClamp (s_full sub) x, d_type = ty, d_method = m\<rparr>)"
proof (cases "st_data student (t_id (timeSlots ! tIdx)) (s_id sub) = None")
  case False
  with analyzeMissingType_returns [OF assms(1), of "st_data student" "s_id sub"]
  have "analyzeMissingType (st_data student) tIdx (s_id sub) timeSlots = Some TNone" by simp
  then show ?thesis using False by (simp add: imputeCell_def)
next
  case True
  with analyzeMissingType_returns [OF assms(1), of "st_data student" "s_id sub"]
  obtain mt where mt: "analyzeMissingType (st_data student) tIdx (s_id sub) timeSlots = Some mt"
    "mt \<noteq> TNone" by auto
  from estimateCell_returns [OF assms(2)]
  obtain x m ty k' where est: "estimateCell algorithm rnd students timeSlots subjects student
      (newData st) tIdx sub mt (rng st) = Some ((x, m), ty, k')"
    by (metis prod.collapse)
  let ?st' = "\<lparr>newData = setCell (newData st) (t_id (timeSlots ! tIdx)) (s_id sub)
                   (roundClamp (s_full sub) x),
               newDetails = setCell (newDetails st) (t_id (timeSlots ! tIdx)) (s_id sub)
                   \<lparr>d_val = roundClamp (s_full sub) x, d_type = ty, d_method = m\<rparr>,
               logs = logs st @ [(st_name student, s_name sub, m, roundClamp (s_full sub) x)],
               rng = k'\<rparr>"
  have "imputeCell algorithm rnd students timeSlots subjects student tIdx sub st = Some ?st'"
    using mt est by (cases mt) (simp_all add: imputeCell_def Let_def)
  moreover have "\<exists>x m ty k' mt.
          analyzeMissingType (st_data student) tIdx (s_id sub) timeSlots = Some mt \<and> mt \<noteq> TNone \<and>
          estimateCell algorithm rnd students timeSlots subjects student (newData st) tIdx sub mt
              (rng st) = Some ((x, m), ty, k') \<and>
          newData ?st' =
            setCell (newData st) (t_id (timeSlots ! tIdx)) (s_id sub) (roundClamp (s_full sub) x) \<and>
          newDetails ?st' =
            setCell (newDetails st) (t_id (timeSlots ! tIdx)) (s_id sub)
              \<lparr>d_val = roundClamp (s_full sub) x, d_type = ty, d_method = m\<rparr>"
    using mt est by (intro exI [of _ x] exI [of _ m] exI [of _ ty] exI [of _ k'] exI [of _ mt]) simp
  ultimately show ?thesis using True by simp
qed

lemma forEachM_invariant:
  assumes "I D0 s0"
    and "\<And>x D s. x \<in> set xs \<Longrightarrow> I D s \<Longrightarrow> \<exists>s'. f x s = Some s' \<and> I (D \<union> keys x) s'"
  shows "\<exists>s'. forEachM f xs s0 = Some s' \<and> I (D0 \<union> (\<Union>x \<in> set xs. keys x)) s'"
  using assms
proof (induction xs arbitrary: D0 s0)
  case Nil
  then show ?case by simp
next
  case (Cons x xs)
  from Cons.prems(2) [of x D0 s0] Cons.prems(1)
  obtain s1 where s1: "f x s0 = Some s1" "I (D0 \<union> keys x) s1" by auto
  have "\<exists>s'. forEachM f xs s1 = Some s' \<and> I ((D0 \<union> keys x) \<union> (\<Union>x \<in> set xs. keys x)) s'"
  proof (rule Cons.IH [OF s1(2)])
    fix y D s assume "y \<in> set xs" "I D s"
    then show "\<exists>s'. f y s = Some s' \<and> I (D \<union> keys y) s'"
      using Cons.prems(2) [of y D s] by simp
  qed
  moreover have "(D0 \<union> keys x) \<union> (\<Union>x \<in> set xs. keys x) = D0 \<union> (\<Union>y \<in> set (x # xs). keys y)"
    by auto
  ultimately show ?case using s1(1) by simp
qed

lemma passInv_present:
  assumes "passInv W sd subs D nd det" "sd a b \<noteq> None"
  shows "passInv W sd subs (D \<union> {(a, b)}) nd det"
  using assms unfolding passInv_def by auto

lemma passInv_written:
  assumes "passInv W sd subs D nd det" "sub \<in> set subs" "sd a (s_id sub) = None"
    and "W a sub v (Some d)"
  shows "passInv W sd subs (D \<union> {(a, s_id sub)}) (setCell nd a (s_id sub) v)
           (setCell det a (s_id sub) d)"
proof -
  let ?nd = "setCell nd a (s_id sub) v"
  let ?det = "setCell det a (s_id sub) d"
  have same: "?nd a' b' = nd a' b' \<and> ?det a' b' = det a' b'" if "(a', b') \<noteq> (a, s_id sub)" for a' b'
    using that by (auto simp: setCell_def)
  have new: "?nd a (s_id sub) = Some v" "?det a (s_id sub) = Some d"
    by (simp_all add: setCell_def)
  have 1: "\<forall>a' b'. sd a' b' \<noteq> None \<longrightarrow> ?nd a' b' = sd a' b'"
  proof (intro allI impI)
    fix a' b' assume p: "sd a' b' \<noteq> None"
    then have "(a', b') \<noteq> (a, s_id sub)" using assms(3) by auto
    then show "?nd a' b' = sd a' b'" using same p assms(1) by (simp add: passInv_def)
  qed
  have 2: "?nd a' b' \<noteq> None" if d: "(a', b') \<in> D \<union> {(a, s_id sub)}" for a' b'
  proof (cases "(a', b') = (a, s_id sub)")
    case True
    then show ?thesis using new by simp
  next
    case False
    then have "(a', b') \<in> D" using d by auto
    then have "nd a' b' \<noteq> None" using assms(1) by (auto simp: passInv_def)
    then show ?thesis using same [OF False] by simp
  qed
  have 3: "\<forall>a' b' v'. sd a' b' = None \<and> ?nd a' b' = Some v' \<longrightarrow>
        (\<exists>s \<in> set subs. s_id s = b' \<and> W a' s v' (?det a' b'))"
  proof (intro allI impI)
    fix a' b' v' assume h: "sd a' b' = None \<and> ?nd a' b' = Some v'"
    show "\<exists>s \<in> set subs. s_id s = b' \<and> W a' s v' (?det a' b')"
    proof (cases "(a', b') = (a, s_id sub)")
      case True
      then have "v' = v" "?det a' b' = Some d" using new h by simp_all
      then show ?thesis using True assms(2,4) by auto
    next
      case False
      then have "nd a' b' = Some v'" "?det a' b' = det a' b'" using same [OF False] h by simp_all
      then show ?thesis using assms(1) h unfolding passInv_def by metis
    qed
  qed
  show ?thesis unfolding passInv_def
  proof (intro conjI)
    show "\<forall>a' b'. sd a' b' \<noteq> None \<longrightarrow> ?nd a' b' = sd a' b'" by (rule 1)
    show "\<forall>(a', b') \<in> D \<union> {(a, s_id sub)}. ?nd a' b' \<noteq> None" using 2 by blast
    show "\<forall>a' b' v'. sd a' b' = None \<and> ?nd a' b' = Some v' \<longrightarrow>
        (\<exists>s \<in> set subs. s_id s = b' \<and> W a' s v' (?det a' b'))" by (rule 3)
  qed
qed

lemma imputeCell_invariant:
  assumes "tIdx < length timeSlots"
    and "algorithm = BoxMullerAlg \<longrightarrow> (\<forall>n. \<exists>m\<ge>n. rnd m \<noteq> 0)"
    and "sub \<in> set subjects"
    and "passInv (cellWrittenBy algorithm rnd students timeSlots subjects student)
           (st_data student) subjects D (newData st) (newDetails st)"
  shows "\<exists>st'. imputeCell algorithm rnd students timeSlots subjects student tIdx sub st = Some st' \<and>
      passInv (cellWrittenBy algorithm rnd students timeSlots subjects student)
        (st_data student) subjects (D \<union> {(t_id (timeSlots ! tIdx), s_id sub)})
        (newData st') (newDetails st')"
proof -
  let ?W = "cellWrittenBy algorithm rnd students timeSlots subjects student"
  let ?a = "t_id (timeSlots ! tIdx)"
  from imputeCell_step [OF assms(1,2), of students subjects student sub st]
  obtain st' where st': "imputeCell algorithm rnd students timeSlots subjects student tIdx sub st = Some st'"
    "if st_data student ?a (s_id sub) \<noteq> None
       then st' = st
       else \<exists>x m ty k' mt.
          analyzeMissingType (st_data student) tIdx (s_id sub) timeSlots = Some mt \<and> mt \<noteq> TNone \<and>
          estimateCell algorithm rnd students timeSlots subjects student (newData st) tIdx sub mt
              (rng st) = Some ((x, m), ty, k') \<and>
          newData st' = setCell (newData st) ?a (s_id sub) (roundClamp (s_full sub) x) \<and>
          newDetails st' =
            setCell (newDetails st) ?a (s_id sub)
              \<lparr>d_val = roundClamp (s_full sub) x, d_type = ty, d_method = m\<rparr>"
    by blast
  show ?thesis
  proof (cases "st_data student ?a (s_id sub) = None")
    case False
    then have "st' = st" using st'(2) by simp
    then show ?thesis using st'(1) passInv_present [OF assms(4) False] by simp
  next
    case True
    then obtain x m ty k' mt where w:
      "analyzeMissingType (st_data student) tIdx (s_id sub) timeSlots = Some mt" "mt \<noteq> TNone"
      "estimateCell algorithm rnd students timeSlots subjects student (newData st) tIdx sub mt
              (rng st) = Some ((x, m), ty, k')"
      "newData st' = setCell (newData st) ?a (s_id sub) (roundClamp (s_full sub) x)"
      "newDetails st' = setCell (newDetails st) ?a (s_id sub)
              \<lparr>d_val = roundClamp (s_full sub) x, d_type = ty, d_method = m\<rparr>"
      using st'(2) by auto
    have path: "definedPath algorithm subjects m ty" by (rule estimateCell_path [OF w(3,2)])
    have ext: "\<forall>a' b'. st_data student a' b' \<noteq> None \<longrightarrow>
        newData st a' b' = st_data student a' b'"
      using assms(4) by (simp add: passInv_def)
    have "?W ?a sub (roundClamp (s_full sub) x)
        (Some \<lparr>d_val = roundClamp (s_full sub) x, d_type = ty, d_method = m\<rparr>)"
      unfolding cellWrittenBy_def
      using assms(1) w(1,2,3) path ext
      by (intro exI [of _ x] exI [of _ m] exI [of _ ty] exI [of _ tIdx] exI [of _ "newData st"]
          exI [of _ "rng st"] exI [of _ k'] exI [of _ mt]) (simp add: roundClamp_def)
    from passInv_written [OF assms(4,3) True this]
    show ?thesis using st'(1) w(4,5) by simp
  qed
qed

lemma imputeStudent_invariant:
  assumes "algorithm = BoxMullerAlg \<longrightarrow> (\<forall>n. \<exists>m\<ge>n. rnd m \<noteq> 0)"
  shows "\<exists>s' lk'. imputeStudent algorithm rnd students timeSlots subjects student lk = Some (s', lk') \<and>
      passInv (cellWrittenBy algorithm rnd students timeSlots subjects student)
        (st_data student) subjects
        {(t_id t, s_id s) | t s. t \<in> set timeSlots \<and> s \<in> set subjects}
        (st_data s') (imputedDetails s')"
proof -
  let ?W = "cellWrittenBy algorithm rnd students timeSlots subjects student"
  let ?I = "\<lambda>D (st::pass). passInv ?W (st_data student) subjects D (newData st) (newDetails st)"
  let ?row = "\<lambda>tIdx. (\<Union>s \<in> set subjects. {(t_id (timeSlots ! tIdx), s_id s)})"
  let ?st0 = "\<lparr>newData = st_data student, newDetails = (\<lambda>t s. None), logs = fst lk, rng = snd lk\<rparr>"
  have init: "?I {} ?st0" by (auto simp: passInv_def)
  have row: "\<exists>st'. forEachM (imputeCell algorithm rnd students timeSlots subjects student tIdx)
        subjects st = Some st' \<and> ?I (D \<union> ?row tIdx) st'"
    if "tIdx \<in> set [0..<length timeSlots]" "?I D st" for tIdx D st
  proof (rule forEachM_invariant [where I = ?I, OF that(2)])
    fix sub D' st1 assume "sub \<in> set subjects" "?I D' st1"
    then show "\<exists>s'. imputeCell algorithm rnd students timeSlots subjects student tIdx sub st1 = Some s' \<and>
        ?I (D' \<union> {(t_id (timeSlots ! tIdx), s_id sub)}) s'"
      using imputeCell_invariant [OF _ assms, of tIdx timeSlots sub subjects students student D' st1] that(1)
      by simp
  qed
  have "\<exists>st. forEachM
       (\<lambda>tIdx. forEachM (imputeCell algorithm rnd students timeSlots subjects student tIdx) subjects)
       [0..<length timeSlots] ?st0 = Some st \<and>
     ?I ({} \<union> (\<Union>tIdx \<in> set [0..<length timeSlots]. ?row tIdx)) st"
  proof (rule forEachM_invariant [where I = ?I and keys = ?row, OF init])
    fix x D s assume "x \<in> set [0..<length timeSlots]" "?I D s"
    then show "\<exists>s'. forEachM (imputeCell algorithm rnd students timeSlots subjects student x)
        subjects s = Some s' \<and> ?I (D \<union> ?row x) s'" by (rule row)
  qed
  then obtain st where st: "forEachM
       (\<lambda>tIdx. forEachM (imputeCell algorithm rnd students timeSlots subjects student tIdx) subjects)
       [0..<length timeSlots] ?st0 = Some st"
     "?I ({} \<union> (\<Union>tIdx \<in> set [0..<length timeSlots]. ?row tIdx)) st"
    by blast
  have "({} \<union> (\<Union>tIdx \<in> set [0..<length timeSlots]. ?row tIdx)) =
      {(t_id t, s_id s) | t s. t \<in> set timeSlots \<and> s \<in> set subjects}"
  proof (intro equalityI subsetI)
    fix p assume "p \<in> {} \<union> (\<Union>tIdx \<in> set [0..<length timeSlots]. ?row tIdx)"
    then obtain i s where "i < length timeSlots" "s \<in> set subjects"
      "p = (t_id (timeSlots ! i), s_id s)" by auto
    then show "p \<in> {(t_id t, s_id s) | t s. t \<in> set timeSlots \<and> s \<in> set subjects}"
      using nth_mem [of i timeSlots] by blast
  next
    fix p assume "p \<in> {(t_id t, s_id s) | t s. t \<in> set timeSlots \<and> s \<in> set subjects}"
    then obtain t s where ts: "t \<in> set timeSlots" "s \<in> set subjects" "p = (t_id t, s_id s)"
      by blast
    then obtain i where "i < length timeSlots" "timeSlots ! i = t"
      by (auto simp: in_set_conv_nth)
    then show "p \<in> {} \<union> (\<Union>tIdx \<in> set [0..<length timeSlots]. ?row tIdx)"
      using ts by auto
  qed
  then have "?I {(t_id t, s_id s) | t s. t \<in> set timeSlots \<and> s \<in> set subjects} st"
    using st(2) by simp
  then show ?thesis using st(1) by (simp add: imputeStudent_def)
qed

lemma imputeAll_invariant:
  assumes "algorithm = BoxMullerAlg \<longrightarrow> (\<forall>n. \<exists>m\<ge>n. rnd m \<noteq> 0)"
  shows "\<exists>res lk'. imputeAll algorithm rnd students timeSlots subjects rest lk = Some (res, lk') \<and>
      list_all2 (\<lambda>s s'. passInv (cellWrittenBy algorithm rnd students timeSlots subjects s)
          (st_data s) subjects
          {(t_id t, s_id s) | t s. t \<in> set timeSlots \<and> s \<in> set subjects}
          (st_data s') (imputedDetails s')) rest res"
proof (induction rest arbitrary: lk)
  case Nil
  then show ?case by simp
next
  case (Cons student rest)
  from imputeStudent_invariant [OF assms, of students timeSlots subjects student lk]
  obtain s' lk1 where s': "imputeStudent algorithm rnd students timeSlots subjects student lk = Some (s', lk1)"
    "passInv (cellWrittenBy algorithm rnd students timeSlots subjects student) (st_data student) subjects
        {(t_id t, s_id s) | t s. t \<in> set timeSlots \<and> s \<in> set subjects}
        (st_data s') (imputedDetails s')"
    by blast
  from Cons.IH [of lk1]
  obtain res lk2 where res: "imputeAll algorithm rnd students timeSlots subjects rest lk1 = Some (res, lk2)"
    "list_all2 (\<lambda>s s'. passInv (cellWrittenBy algorithm rnd students timeSlots subjects s)
          (st_data s) subjects
          {(t_id t, s_id s) | t s. t \<in> set timeSlots \<and> s \<in> set subjects}
          (st_data s') (imputedDetails s')) rest res"
    by blast
  show ?case using s' res by simp
qed

lemma clamp_range:
  "0 \<le> full \<Longrightarrow> 0 \<le> max 0 (min full (x::real)) \<and> max 0 (min full x) \<le> full"
  by simp

lemma passInv_cell:
  assumes "passInv W sd subjects {(t_id t, s_id s) | t s. t \<in> set timeSlots \<and> s \<in> set subjects}
      nd det"
    and "t \<in> set timeSlots" "s \<in> set subjects" "distinct (map s_id subjects)"
  shows "case sd (t_id t) (s_id s) of
           Some v \<Rightarrow> nd (t_id t) (s_id s) = Some v
         | None \<Rightarrow> \<exists>v. nd (t_id t) (s_id s) = Some v \<and> W (t_id t) s v (det (t_id t) (s_id s))"
proof (cases "sd (t_id t) (s_id s)")
  case (Some v)
  then have "nd (t_id t) (s_id s) = sd (t_id t) (s_id s)"
    using assms(1) by (simp add: passInv_def)
  then show ?thesis using Some by simp
next
  case None
  let ?K = "{(t_id t, s_id s) | t s. t \<in> set timeSlots \<and> s \<in> set subjects}"
  have k: "(t_id t, s_id s) \<in> ?K" using assms(2,3) by blast
  have filled: "\<forall>(a, b) \<in> ?K. nd a b \<noteq> None"
    and written: "\<forall>a b v. sd a b = None \<and> nd a b = Some v \<longrightarrow>
        (\<exists>s \<in> set subjects. s_id s = b \<and> W a s v (det a b))"
    using assms(1) by (simp_all add: passInv_def)
  from bspec [OF filled k] have "nd (t_id t) (s_id s) \<noteq> None" by simp
  then obtain v where v: "nd (t_id t) (s_id s) = Some v" by auto
  from written [rule_format, of "t_id t" "s_id s" v] None v
  obtain s' where s': "s' \<in> set subjects" "s_id s' = s_id s"
    "W (t_id t) s' v (det (t_id t) (s_id s))" by auto
  have "inj_on s_id (set subjects)" using assms(4) by (simp add: distinct_map)
  then have "s' = s" using s'(1,2) assms(3) by (auto dest: inj_onD)
  then show ?thesis using None v s'(3) by auto
qed

lemma recalcScores_data:
  assumes "p \<in> set (recalcScores studentList tSlots subs)"
  shows "\<exists>q \<in> set studentList. st_data p = st_data q"
  using assms by (auto simp: recalcScores_def sortCmp_set)


text \<open>
  Claim C3. Let the subjects have distinct ids and non-negative full marks, let every
  present cell of the cohort lie in \<open>[0, full]\<close> of its subject, and, for the Box-Muller
  algorithm, let the random source never return 0 for ever. Then the pass returns. In its
  result a cell that was present keeps its value. A cell that was missing holds the value
  \<open>x\<close> that \<open>estimateCell\<close> returned for it, at a slot index with its slot id and on a
  working copy that has every cell of the student's data, rounded to the nearest integer
  and then clamped to \<open>[0, full]\<close>; its provenance records that value with the type and
  the method, and these are the ones of a defined path: interpolation for a
  discrete gap, or, for a continuous gap, mean fill or regression, nearest neighbour or
  Box-Muller according to the algorithm. After the ranking every cell of every declared slot
  and subject is present and lies in \<open>[0, full]\<close>.
\<close>

theorem C3_all_cells_filled:
  assumes "\<forall>s \<in> set subjects. 0 \<le> s_full s"
    and "distinct (map s_id subjects)"
    and "\<forall>p \<in> set students. \<forall>t \<in> set timeSlots. \<forall>s \<in> set subjects. \<forall>v.
           st_data p (t_id t) (s_id s) = Some v \<longrightarrow> 0 \<le> v \<and> v \<le> s_full s"
    and "algorithm = BoxMullerAlg \<longrightarrow> (\<forall>n. \<exists>m\<ge>n. rnd m \<noteq> 0)"
  shows "\<exists>newStudents lg k'.
     imputeAll algorithm rnd students timeSlots subjects students ([], k) = Some (newStudents, lg, k') \<and>
     handleRunAlgorithm algorithm rnd k students timeSlots subjects =
       Some (recalcScores newStudents timeSlots subjects, lg, k') \<and>
     length newStudents = length students \<and>
     (\<forall>i < length students. \<forall>t \<in> set timeSlots. \<forall>s \<in> set subjects.
        case st_data (students ! i) (t_id t) (s_id s) of
          Some v \<Rightarrow> st_data (newStudents ! i) (t_id t) (s_id s) = Some v
        | None \<Rightarrow>
            \<exists>x m ty.
              st_data (newStudents ! i) (t_id t) (s_id s) =
                Some (max 0 (min (s_full s) (of_int (round x)))) \<and>
              imputedDetails (newStudents ! i) (t_id t) (s_id s) =
                Some \<lparr>d_val = max 0 (min (s_full s) (of_int (round x))),
                      d_type = ty, d_method = m\<rparr> \<and>
              ((ty = TDiscrete \<and> m = TemporalInterpolation) \<or>
               (ty = TContinuous \<and>
                  (case algorithm of
                     RegressionAlg \<Rightarrow> m = MeanFill \<or> (\<exists>r \<in> set subjects. m = Regression (s_name r))
                   | KnnAlg \<Rightarrow> m = KNN
                   | BoxMullerAlg \<Rightarrow> m = BoxMuller))) \<and>
              (\<exists>tIdx nd k0 k1 mt.
                 tIdx < length timeSlots \<and> t_id (timeSlots ! tIdx) = t_id t \<and>
                 (\<forall>a b. st_data (students ! i) a b \<noteq> None \<longrightarrow>
                    nd a b = st_data (students ! i) a b) \<and>
                 analyzeMissingType (st_data (students ! i)) tIdx (s_id s) timeSlots = Some mt \<and>
                 mt \<noteq> TNone \<and>
                 estimateCell algorithm rnd students timeSlots subjects (students ! i) nd tIdx s mt k0 =
                   Some ((x, m), ty, k1))) \<and>
     (\<forall>p \<in> set (recalcScores newStudents timeSlots subjects).
        \<forall>t \<in> set timeSlots. \<forall>s \<in> set subjects.
          \<exists>v. st_data p (t_id t) (s_id s) = Some v \<and> 0 \<le> v \<and> v \<le> s_full s)"
proof -
  let ?K = "{(t_id t, s_id s) | t s. t \<in> set timeSlots \<and> s \<in> set subjects}"
  let ?W = "cellWrittenBy algorithm rnd students timeSlots subjects"
  from imputeAll_invariant [OF assms(4), of students timeSlots subjects students "([], k)"]
  obtain res lk' where res0:
    "imputeAll algorithm rnd students timeSlots subjects students ([], k) = Some (res, lk')"
    "list_all2 (\<lambda>s s'. passInv (?W s) (st_data s) subjects ?K (st_data s') (imputedDetails s'))
       students res"
    by blast
  obtain lg k' where lk': "lk' = (lg, k')" by (cases lk')
  note res = res0 [unfolded lk']
  have len: "length res = length students" using res(2) by (simp add: list_all2_lengthD)
  have inv: "passInv (?W (students ! i)) (st_data (students ! i)) subjects ?K
      (st_data (res ! i)) (imputedDetails (res ! i))"
    if "i < length students" for i
    using list_all2_nthD [OF res(2) that] by simp
  have cell0: "case st_data (students ! i) (t_id t) (s_id s) of
          Some v \<Rightarrow> st_data (res ! i) (t_id t) (s_id s) = Some v
        | None \<Rightarrow> \<exists>v. st_data (res ! i) (t_id t) (s_id s) = Some v \<and>
            ?W (students ! i) (t_id t) s v (imputedDetails (res ! i) (t_id t) (s_id s))"
    if "i < length students" "t \<in> set timeSlots" "s \<in> set subjects" for i t s
    using passInv_cell [OF inv [OF that(1)] that(2,3) assms(2)] .
  have cell: "case st_data (students ! i) (t_id t) (s_id s) of
          Some v \<Rightarrow> st_data (res ! i) (t_id t) (s_id s) = Some v
        | None \<Rightarrow>
            \<exists>x m ty.
              st_data (res ! i) (t_id t) (s_id s) =
                Some (max 0 (min (s_full s) (of_int (round x)))) \<and>
              imputedDetails (res ! i) (t_id t) (s_id s) =
                Some \<lparr>d_val = max 0 (min (s_full s) (of_int (round x))),
                      d_type = ty, d_method = m\<rparr> \<and>
              ((ty = TDiscrete \<and> m = TemporalInterpolation) \<or>
               (ty = TContinuous \<and>
                  (case algorithm of
                     RegressionAlg \<Rightarrow> m = MeanFill \<or> (\<exists>r \<in> set subjects. m = Regression (s_name r))
                   | KnnAlg \<Rightarrow> m = KNN
                   | BoxMullerAlg \<Rightarrow> m = BoxMuller))) \<and>
              (\<exists>tIdx nd k0 k1 mt.
                 tIdx < length timeSlots \<and> t_id (timeSlots ! tIdx) = t_id t \<and>
                 (\<forall>a b. st_data (students ! i) a b \<noteq> None \<longrightarrow>
                    nd a b = st_data (students ! i) a b) \<and>
                 analyzeMissingType (st_data (students ! i)) tIdx (s_id s) timeSlots = Some mt \<and>
                 mt \<noteq> TNone \<and>
                 estimateCell algorithm rnd students timeSlots subjects (students ! i) nd tIdx s mt k0 =
                   Some ((x, m), ty, k1))"
    if "i < length students" "t \<in> set timeSlots" "s \<in> set subjects" for i t s
  proof (cases "st_data (students ! i) (t_id t) (s_id s)")
    case (Some v)
    then show ?thesis using cell0 [OF that] by simp
  next
    case None
    with cell0 [OF that] obtain v where v: "st_data (res ! i) (t_id t) (s_id s) = Some v"
      "?W (students ! i) (t_id t) s v (imputedDetails (res ! i) (t_id t) (s_id s))" by auto
    from v(2) obtain x m ty tIdx nd k0 k1 mt where w:
      "tIdx < length timeSlots" "t_id (timeSlots ! tIdx) = t_id t"
      "analyzeMissingType (st_data (students ! i)) tIdx (s_id s) timeSlots = Some mt" "mt \<noteq> TNone"
      "\<forall>a b. st_data (students ! i) a b \<noteq> None \<longrightarrow> nd a b = st_data (students ! i) a b"
      "estimateCell algorithm rnd students timeSlots subjects (students ! i) nd tIdx s mt k0 =
         Some ((x, m), ty, k1)"
      "definedPath algorithm subjects m ty"
      "v = max 0 (min (s_full s) (of_int (round x)))"
      "imputedDetails (res ! i) (t_id t) (s_id s) = Some \<lparr>d_val = v, d_type = ty, d_method = m\<rparr>"
      unfolding cellWrittenBy_def by blast
    have "\<exists>tIdx nd k0 k1 mt.
                 tIdx < length timeSlots \<and> t_id (timeSlots ! tIdx) = t_id t \<and>
                 (\<forall>a b. st_data (students ! i) a b \<noteq> None \<longrightarrow>
                    nd a b = st_data (students ! i) a b) \<and>
                 analyzeMissingType (st_data (students ! i)) tIdx (s_id s) timeSlots = Some mt \<and>
                 mt \<noteq> TNone \<and>
                 estimateCell algorithm rnd students timeSlots subjects (students ! i) nd tIdx s mt k0 =
                   Some ((x, m), ty, k1)"
      using w(1-6) by blast
    moreover have "(ty = TDiscrete \<and> m = TemporalInterpolation) \<or>
               (ty = TContinuous \<and>
                  (case algorithm of
                     RegressionAlg \<Rightarrow> m = MeanFill \<or> (\<exists>r \<in> set subjects. m = Regression (s_name r))
                   | KnnAlg \<Rightarrow> m = KNN
                   | BoxMullerAlg \<Rightarrow> m = BoxMuller))"
      using w(7) by (simp add: definedPath_def)
    moreover have "st_data (res ! i) (t_id t) (s_id s) =
        Some (max 0 (min (s_full s) (of_int (round x))))"
      using v(1) w(8) by simp
    moreover have "imputedDetails (res ! i) (t_id t) (s_id s) =
                Some \<lparr>d_val = max 0 (min (s_full s) (of_int (round x))),
                      d_type = ty, d_method = m\<rparr>"
      using w(8,9) by simp
    ultimately have "\<exists>x m ty.
              st_data (res ! i) (t_id t) (s_id s) =
                Some (max 0 (min (s_full s) (of_int (round x)))) \<and>
              imputedDetails (res ! i) (t_id t) (s_id s) =
                Some \<lparr>d_val = max 0 (min (s_full s) (of_int (round x))),
                      d_type = ty, d_method = m\<rparr> \<and>
              ((ty = TDiscrete \<and> m = TemporalInterpolation) \<or>
               (ty = TContinuous \<and>
                  (case algorithm of
                     RegressionAlg \<Rightarrow> m = MeanFill \<or> (\<exists>r \<in> set subjects. m = Regression (s_name r))
                   | KnnAlg \<Rightarrow> m = KNN
                   | BoxMullerAlg \<Rightarrow> m = BoxMuller))) \<and>
              (\<exists>tIdx nd k0 k1 mt.
                 tIdx < length timeSlots \<and> t_id (timeSlots ! tIdx) = t_id t \<and>
                 (\<forall>a b. st_data (students ! i) a b \<noteq> None \<longrightarrow>
                    nd a b = st_data (students ! i) a b) \<and>
                 analyzeMissingType (st_data (students ! i)) tIdx (s_id s) timeSlots = Some mt \<and>
                 mt \<noteq> TNone \<and>
                 estimateCell algorithm rnd students timeSlots subjects (students ! i) nd tIdx s mt k0 =
                   Some ((x, m), ty, k1))"
      by (intro exI [of _ x] exI [of _ m] exI [of _ ty] conjI)
    then show ?thesis by (simp only: None option.case)
  qed
  have ok: "\<exists>v. st_data (res ! i) (t_id t) (s_id s) = Some v \<and> 0 \<le> v \<and> v \<le> s_full s"
    if "i < length students" "t \<in> set timeSlots" "s \<in> set subjects" for i t s
  proof (cases "st_data (students ! i) (t_id t) (s_id s)")
    case None
    with cell [OF that] have "\<exists>x::real. st_data (res ! i) (t_id t) (s_id s) =
         Some (max 0 (min (s_full s) (of_int (round x))))"
      by (simp only: option.case) blast
    then obtain x :: real where
      "st_data (res ! i) (t_id t) (s_id s) =
         Some (max 0 (min (s_full s) (of_int (round x))))" ..
    then show ?thesis
      using clamp_range [of "s_full s" "of_int (round x)"] assms(1) that(3) by simp
  next
    case (Some v)
    with cell [OF that] have "st_data (res ! i) (t_id t) (s_id s) = Some v" by simp
    moreover have "students ! i \<in> set students" using that(1) by simp
    then have "0 \<le> v \<and> v \<le> s_full s"
      using assms(3) [rule_format, of "students ! i" t s v] Some that(2,3) by simp
    ultimately show ?thesis by simp
  qed
  have ranked: "\<exists>v. st_data p (t_id t) (s_id s) = Some v \<and> 0 \<le> v \<and> v \<le> s_full s"
    if "p \<in> set (recalcScores res timeSlots subjects)" "t \<in> set timeSlots" "s \<in> set subjects"
    for p t s
  proof -
    from recalcScores_data [OF that(1)] obtain q where q: "q \<in> set res" "st_data p = st_data q"
      by blast
    then obtain i where "i < length res" "res ! i = q" by (auto simp: in_set_conv_nth)
    then show ?thesis using ok [of i t s] that(2,3) len q(2) by simp
  qed
  have run: "handleRunAlgorithm algorithm rnd k students timeSlots subjects =
       Some (recalcScores res timeSlots subjects, lg, k')"
    by (simp add: handleRunAlgorithm_def res(1))
  show ?thesis
  proof (intro exI [of _ res] exI [of _ lg] exI [of _ k'] conjI allI impI ballI)
    show "imputeAll algorithm rnd students timeSlots subjects students ([], k) = Some (res, lg, k')"
      by (rule res(1))
    show "handleRunAlgorithm algorithm rnd k students timeSlots subjects =
       Some (recalcScores res timeSlots subjects, lg, k')" by (rule run)
    show "length res = length students" by (rule len)
  next
    fix i t s assume a: "i < length students" "t \<in> set timeSlots" "s \<in> set subjects"
    show "case st_data (students ! i) (t_id t) (s_id s) of
          Some v \<Rightarrow> st_data (res ! i) (t_id t) (s_id s) = Some v
        | None \<Rightarrow>
            \<exists>x m ty.
              st_data (res ! i) (t_id t) (s_id s) =
                Some (max 0 (min (s_full s) (of_int (round x)))) \<and>
              imputedDetails (res ! i) (t_id t) (s_id s) =
                Some \<lparr>d_val = max 0 (min (s_full s) (of_int (round x))),
                      d_type = ty, d_method = m\<rparr> \<and>
              ((ty = TDiscrete \<and> m = TemporalInterpolation) \<or>
               (ty = TContinuous \<and>
                  (case algorithm of
                     RegressionAlg \<Rightarrow> m = MeanFill \<or> (\<exists>r \<in> set subjects. m = Regression (s_name r))
                   | KnnAlg \<Rightarrow> m = KNN
                   | BoxMullerAlg \<Rightarrow> m = BoxMuller))) \<and>
              (\<exists>tIdx nd k0 k1 mt.
                 tIdx < length timeSlots \<and> t_id (timeSlots ! tIdx) = t_id t \<and>
                 (\<forall>a b. st_data (students ! i) a b \<noteq> None \<longrightarrow>
                    nd a b = st_data (students ! i) a b) \<and>
                 analyzeMissingType (st_data (students ! i)) tIdx (s_id s) timeSlots = Some mt \<and>
                 mt \<noteq> TNone \<and>
                 estimateCell algorithm rnd students timeSlots subjects (students ! i) nd tIdx s mt k0 =
                   Some ((x, m), ty, k1))"
      by (rule cell [OF a])
  next
    fix p t s assume "p \<in> set (recalcScores res timeSlots subjects)" "t \<in> set timeSlots"
      "s \<in> set subjects"
    then show "\<exists>v. st_data p (t_id t) (s_id s) = Some v \<and> 0 \<le> v \<and> v \<le> s_full s"
      by (rule ranked)
  qed
qed

theorem C3_all_cells_filled_witness:
  "\<exists>newStudents lg k'.
     handleRunAlgorithm BoxMullerAlg halfSource 0 crossCohort slot1 [subX1, subX2] =
       Some (recalcScores newStudents slot1 [subX1, subX2], lg, k') \<and>
     length newStudents = 2 \<and>
     (\<exists>x::real.
        st_data (newStudents ! 0) ''t1'' ''x1'' = Some (max 0 (min 150 (of_int (round x)))) \<and>
        imputedDetails (newStudents ! 0) ''t1'' ''x1'' =
          Some \<lparr>d_val = max 0 (min 150 (of_int (round x))),
                d_type = TContinuous, d_method = BoxMuller\<rparr>) \<and>
     st_data (newStudents ! 0) ''t1'' ''x2'' = Some 60 \<and>
     st_data (newStudents ! 1) ''t1'' ''x1'' = Some 50 \<and>
     (\<exists>x::real.
        st_data (newStudents ! 1) ''t1'' ''x2'' = Some (max 0 (min 150 (of_int (round x)))) \<and>
        imputedDetails (newStudents ! 1) ''t1'' ''x2'' =
          Some \<lparr>d_val = max 0 (min 150 (of_int (round x))),
                d_type = TContinuous, d_method = BoxMuller\<rparr>)"
proof -
  let ?subs = "[subX1, subX2]"
  have h1: "\<forall>s \<in> set ?subs. 0 \<le> s_full s" by (simp add: subX1_def subX2_def)
  have h2: "distinct (map s_id ?subs)" by (simp add: subX1_def subX2_def)
  have h3: "\<forall>p \<in> set crossCohort. \<forall>t \<in> set slot1. \<forall>s \<in> set ?subs. \<forall>v.
           st_data p (t_id t) (s_id s) = Some v \<longrightarrow> 0 \<le> v \<and> v \<le> s_full s"
    by (simp add: crossCohort_def slot1_def subX1_def subX2_def mkStudent_def dataOf_def setCell_def)
  have h4: "BoxMullerAlg = BoxMullerAlg \<longrightarrow> (\<forall>n. \<exists>m\<ge>n. halfSource m \<noteq> 0)"
    by (auto simp: halfSource_def)
  from C3_all_cells_filled [OF h1 h2 h3 h4, of 0]
  obtain res lg k' where run: "handleRunAlgorithm BoxMullerAlg halfSource 0 crossCohort slot1
        ?subs = Some (recalcScores res slot1 ?subs, lg, k')"
    and len: "length res = length crossCohort"
    and cells: "\<forall>i < length crossCohort. \<forall>t \<in> set slot1. \<forall>s \<in> set ?subs.
        case st_data (crossCohort ! i) (t_id t) (s_id s) of
          Some v \<Rightarrow> st_data (res ! i) (t_id t) (s_id s) = Some v
        | None \<Rightarrow>
            \<exists>x m ty.
              st_data (res ! i) (t_id t) (s_id s) =
                Some (max 0 (min (s_full s) (of_int (round x)))) \<and>
              imputedDetails (res ! i) (t_id t) (s_id s) =
                Some \<lparr>d_val = max 0 (min (s_full s) (of_int (round x))),
                      d_type = ty, d_method = m\<rparr> \<and>
              ((ty = TDiscrete \<and> m = TemporalInterpolation) \<or>
               (ty = TContinuous \<and>
                  (case BoxMullerAlg of
                     RegressionAlg \<Rightarrow> m = MeanFill \<or> (\<exists>r \<in> set ?subs. m = Regression (s_name r))
                   | KnnAlg \<Rightarrow> m = KNN
                   | BoxMullerAlg \<Rightarrow> m = BoxMuller))) \<and>
              (\<exists>tIdx nd k0 k1 mt.
                 tIdx < length slot1 \<and> t_id (slot1 ! tIdx) = t_id t \<and>
                 (\<forall>a b. st_data (crossCohort ! i) a b \<noteq> None \<longrightarrow>
                    nd a b = st_data (crossCohort ! i) a b) \<and>
                 analyzeMissingType (st_data (crossCohort ! i)) tIdx (s_id s) slot1 = Some mt \<and>
                 mt \<noteq> TNone \<and>
                 estimateCell BoxMullerAlg halfSource crossCohort slot1 ?subs (crossCohort ! i) nd
                     tIdx s mt k0 = Some ((x, m), ty, k1))"
    by blast
  let ?t = "\<lparr>t_id = ''t1'', t_label = ''exam 1'', t_weight = 1\<rparr>"
  have t: "?t \<in> set slot1" by (simp add: slot1_def)
  have present: "st_data (res ! i) ''t1'' (s_id s) = Some v"
    if "i < 2" "s \<in> set ?subs" "st_data (crossCohort ! i) ''t1'' (s_id s) = Some v" for i s v
    using cells [rule_format, OF _ t that(2), of i] that(1,3) by (simp add: crossCohort_def)
  have missing: "\<exists>x::real.
        st_data (res ! i) ''t1'' (s_id s) = Some (max 0 (min (s_full s) (of_int (round x)))) \<and>
        imputedDetails (res ! i) ''t1'' (s_id s) =
          Some \<lparr>d_val = max 0 (min (s_full s) (of_int (round x))),
                d_type = TContinuous, d_method = BoxMuller\<rparr>"
    if i: "i < 2" and s: "s \<in> set ?subs" and none: "st_data (crossCohort ! i) ''t1'' (s_id s) = None"
    for i s
  proof -
    have "i < length crossCohort" using i by (simp add: crossCohort_def)
    from cells [rule_format, OF this t s] none
    obtain x m ty tIdx nd k0 k1 mt where w:
      "st_data (res ! i) ''t1'' (s_id s) = Some (max 0 (min (s_full s) (of_int (round x))))"
      "imputedDetails (res ! i) ''t1'' (s_id s) =
          Some \<lparr>d_val = max 0 (min (s_full s) (of_int (round x))), d_type = ty, d_method = m\<rparr>"
      "(ty = TDiscrete \<and> m = TemporalInterpolation) \<or> (ty = TContinuous \<and> m = BoxMuller)"
      "tIdx < length slot1"
      "analyzeMissingType (st_data (crossCohort ! i)) tIdx (s_id s) slot1 = Some mt"
      "estimateCell BoxMullerAlg halfSource crossCohort slot1 ?subs (crossCohort ! i) nd
          tIdx s mt k0 = Some ((x, m), ty, k1)"
      by auto
    have "tIdx = 0" using w(4) by (simp add: slot1_def)
    then have "mt = TContinuous"
      using w(5) none by (simp add: analyzeMissingType_def slot1_def Let_def)
    then have "ty = TContinuous" using w(6) by (auto dest: estimateCell_continuous)
    then have "m = BoxMuller" using w(3) by simp
    then show ?thesis using w(1,2) \<open>ty = TContinuous\<close> by blast
  qed
  have d: "st_data (crossCohort ! 0) ''t1'' (s_id subX1) = None"
    "st_data (crossCohort ! 0) ''t1'' (s_id subX2) = Some 60"
    "st_data (crossCohort ! 1) ''t1'' (s_id subX1) = Some 50"
    "st_data (crossCohort ! 1) ''t1'' (s_id subX2) = None"
    by (simp_all add: crossCohort_def subX1_def subX2_def mkStudent_def dataOf_def setCell_def)
  have c01: "\<exists>x::real.
        st_data (res ! 0) ''t1'' ''x1'' = Some (max 0 (min 150 (of_int (round x)))) \<and>
        imputedDetails (res ! 0) ''t1'' ''x1'' =
          Some \<lparr>d_val = max 0 (min 150 (of_int (round x))),
                d_type = TContinuous, d_method = BoxMuller\<rparr>"
    using missing [of 0 subX1, OF _ _ d(1)] by (simp add: subX1_def)
  have c02: "st_data (res ! 0) ''t1'' ''x2'' = Some 60"
    using present [of 0 subX2, OF _ _ d(2)] by (simp add: subX2_def)
  have c11: "st_data (res ! 1) ''t1'' ''x1'' = Some 50"
    using present [of 1 subX1, OF _ _ d(3)] by (simp add: subX1_def)
  have c12: "\<exists>x::real.
        st_data (res ! 1) ''t1'' ''x2'' = Some (max 0 (min 150 (of_int (round x)))) \<and>
        imputedDetails (res ! 1) ''t1'' ''x2'' =
          Some \<lparr>d_val = max 0 (min 150 (of_int (round x))),
                d_type = TContinuous, d_method = BoxMuller\<rparr>"
    using missing [of 1 subX2, OF _ _ d(4)] by (simp add: subX2_def)
  have "length res = 2" using len by (simp add: crossCohort_def)
  then show ?thesis using run c01 c02 c11 c12
    by (intro exI [of _ res] exI [of _ lg] exI [of _ k'] conjI)
qed

section \<open>Claims about the estimators\<close>

lemma discrete_is_interior:
  assumes "analyzeMissingType sd tIdx subId timeSlots = Some TDiscrete"
  shows "0 < tIdx \<and> tIdx < length timeSlots - 1"
  using assms by (auto simp: analyzeMissingType_def Let_def split: if_splits)

text \<open>
  Claim C5. For a missing cell classified \<open>discrete\<close>: when the working copy has both
  neighbours, \<open>p\<close> before and \<open>n\<close> after, the value before rounding and clamping is
  \<open>(p + n) / 2\<close> plus the jitter \<open>(r - 1/2) * 5\<close> of the next draw \<open>r\<close>, which is at most 2.5
  in absolute value for a draw in \<open>[0, 1)\<close>; the method is temporal interpolation and the
  rounded, clamped value is written; with neighbours 80 and 90, the draw one half and full
  marks of at least 90 the written value is 85. When a neighbour is absent, the type becomes
  \<open>continuous\<close> and the value and method are those of the configured estimator.
\<close>

theorem C5_discrete_interpolation:
  assumes "analyzeMissingType (st_data student) tIdx (s_id sub) timeSlots = Some TDiscrete"
  shows
    "(\<forall>p n. newData st (t_id (timeSlots ! (tIdx - 1))) (s_id sub) = Some p \<and>
           newData st (t_id (timeSlots ! (tIdx + 1))) (s_id sub) = Some n \<longrightarrow>
        estimateCell algorithm rnd students timeSlots subjects student (newData st) tIdx sub
            TDiscrete (rng st) =
          Some (((p + n) / 2 + (rnd (rng st) - 1 / 2) * 5, TemporalInterpolation),
                TDiscrete, Suc (rng st)) \<and>
        (0 \<le> rnd (rng st) \<and> rnd (rng st) < 1 \<longrightarrow> \<bar>(rnd (rng st) - 1 / 2) * 5\<bar> \<le> 5 / 2) \<and>
        (\<exists>st'. imputeCell algorithm rnd students timeSlots subjects student tIdx sub st = Some st' \<and>
           newData st' (t_id (timeSlots ! tIdx)) (s_id sub) =
             Some (roundClamp (s_full sub) ((p + n) / 2 + (rnd (rng st) - 1 / 2) * 5)) \<and>
           newDetails st' (t_id (timeSlots ! tIdx)) (s_id sub) =
             Some \<lparr>d_val = roundClamp (s_full sub) ((p + n) / 2 + (rnd (rng st) - 1 / 2) * 5),
                   d_type = TDiscrete, d_method = TemporalInterpolation\<rparr>) \<and>
        (p = 80 \<and> n = 90 \<and> rnd (rng st) = 1 / 2 \<and> 90 \<le> s_full sub \<longrightarrow>
           roundClamp (s_full sub) ((p + n) / 2 + (rnd (rng st) - 1 / 2) * 5) = 85)) \<and>
     (newData st (t_id (timeSlots ! (tIdx - 1))) (s_id sub) = None \<or>
      newData st (t_id (timeSlots ! (tIdx + 1))) (s_id sub) = None \<longrightarrow>
        estimateCell algorithm rnd students timeSlots subjects student (newData st) tIdx sub
            TDiscrete (rng st) =
          map_option (\<lambda>(vm, k'). (vm, TContinuous, k'))
            (fallbackEstimate algorithm rnd students subjects student (newData st)
               (timeSlots ! tIdx) sub (rng st)))"
proof (intro conjI allI impI)
  note interior = discrete_is_interior [OF assms]
  fix p n
  assume pn: "newData st (t_id (timeSlots ! (tIdx - 1))) (s_id sub) = Some p \<and>
           newData st (t_id (timeSlots ! (tIdx + 1))) (s_id sub) = Some n"
  let ?x = "(p + n) / 2 + (rnd (rng st) - 1 / 2) * 5"
  show est: "estimateCell algorithm rnd students timeSlots subjects student (newData st) tIdx sub
            TDiscrete (rng st) = Some ((?x, TemporalInterpolation), TDiscrete, Suc (rng st))"
    using interior pn by (simp add: estimateCell_def interpolate_def)
  show "\<exists>st'. imputeCell algorithm rnd students timeSlots subjects student tIdx sub st = Some st' \<and>
           newData st' (t_id (timeSlots ! tIdx)) (s_id sub) = Some (roundClamp (s_full sub) ?x) \<and>
           newDetails st' (t_id (timeSlots ! tIdx)) (s_id sub) =
             Some \<lparr>d_val = roundClamp (s_full sub) ?x,
                   d_type = TDiscrete, d_method = TemporalInterpolation\<rparr>"
    by (simp add: imputeCell_def assms est Let_def setCell_def)
next
  assume "0 \<le> rnd (rng st) \<and> rnd (rng st) < 1"
  then have "(rnd (rng st) - 1 / 2) * 5 \<le> 5 / 2" "- ((rnd (rng st) - 1 / 2) * 5) \<le> 5 / 2"
    by (simp_all add: algebra_simps)
  then show "\<bar>(rnd (rng st) - 1 / 2) * 5\<bar> \<le> 5 / 2" unfolding abs_le_iff by simp
next
  fix p n :: real
  assume "p = 80 \<and> n = 90 \<and> rnd (rng st) = 1 / 2 \<and> 90 \<le> s_full sub"
  then have e: "p = 80" "n = 90" "rnd (rng st) = 1 / 2" and f: "90 \<le> s_full sub" by blast+
  have "(p + n) / 2 + (rnd (rng st) - 1 / 2) * 5 = 85" unfolding e by simp
  then show "roundClamp (s_full sub) ((p + n) / 2 + (rnd (rng st) - 1 / 2) * 5) = 85"
    using f by (simp add: roundClamp_def)
next
  note interior = discrete_is_interior [OF assms]
  assume "newData st (t_id (timeSlots ! (tIdx - 1))) (s_id sub) = None \<or>
      newData st (t_id (timeSlots ! (tIdx + 1))) (s_id sub) = None"
  then have i: "interpolate rnd timeSlots (newData st) tIdx sub TDiscrete (rng st) =
      ((0, Unset), TContinuous, rng st)"
    using interior by (auto simp: interpolate_def split: option.splits)
  show "estimateCell algorithm rnd students timeSlots subjects student (newData st) tIdx sub
            TDiscrete (rng st) =
          map_option (\<lambda>(vm, k'). (vm, TContinuous, k'))
            (fallbackEstimate algorithm rnd students subjects student (newData st)
               (timeSlots ! tIdx) sub (rng st))"
    by (simp add: estimateCell_def i split: option.splits)
qed
theorem C5_discrete_interpolation_witness:
  "analyzeMissingType (st_data gapStudent) 1 ''x1'' slots3 = Some TDiscrete \<and>
   estimateCell RegressionAlg halfSource [gapStudent] slots3 [subX1] gapStudent
       (newData (startPass (st_data gapStudent))) 1 subX1 TDiscrete
       (rng (startPass (st_data gapStudent))) =
     Some ((85, TemporalInterpolation), TDiscrete, 1) \<and>
   (\<exists>st'. imputeCell RegressionAlg halfSource [gapStudent] slots3 [subX1] gapStudent 1 subX1
             (startPass (st_data gapStudent)) = Some st' \<and>
          newData st' ''t2'' ''x1'' = Some 85) \<and>
   analyzeMissingType (st_data pairStudent) 1 ''x1'' slots4 = Some TDiscrete \<and>
   estimateCell RegressionAlg halfSource [pairStudent] slots4 [subX1] pairStudent
       (newData (startPass (st_data pairStudent))) 1 subX1 TDiscrete
       (rng (startPass (st_data pairStudent))) =
     Some ((0, MeanFill), TContinuous, 0)"
proof -
  have cls: "analyzeMissingType (st_data gapStudent) 1 (s_id subX1) slots3 = Some TDiscrete"
    by (simp add: analyzeMissingType_def gapStudent_def mkStudent_def dataOf_def setCell_def
        slots3_def subX1_def scanFwd.simps Let_def)
  have cls2: "analyzeMissingType (st_data pairStudent) 1 (s_id subX1) slots4 = Some TDiscrete"
    by (simp add: analyzeMissingType_def pairStudent_def mkStudent_def dataOf_def setCell_def
        slots4_def slots3_def subX1_def scanFwd.simps Let_def)
  let ?st = "startPass (st_data gapStudent)"
  have nb: "newData ?st (t_id (slots3 ! (1 - 1))) (s_id subX1) = Some 80 \<and>
            newData ?st (t_id (slots3 ! (1 + 1))) (s_id subX1) = Some 90"
    by (simp add: startPass_def gapStudent_def mkStudent_def dataOf_def setCell_def slots3_def
        subX1_def)
  have ex: "(80 :: real) = 80 \<and> (90 :: real) = 90 \<and> halfSource (rng ?st) = 1 / 2 \<and> 90 \<le> s_full subX1"
    by (simp add: halfSource_def subX1_def)
  note T = C5_discrete_interpolation [OF cls, where st = ?st and algorithm = RegressionAlg
      and rnd = halfSource and students = "[gapStudent]" and subjects = "[subX1]"]
  from T have "\<forall>p n. newData ?st (t_id (slots3 ! (1 - 1))) (s_id subX1) = Some p \<and>
           newData ?st (t_id (slots3 ! (1 + 1))) (s_id subX1) = Some n \<longrightarrow>
        estimateCell RegressionAlg halfSource [gapStudent] slots3 [subX1] gapStudent (newData ?st) 1
            subX1 TDiscrete (rng ?st) =
          Some (((p + n) / 2 + (halfSource (rng ?st) - 1 / 2) * 5, TemporalInterpolation),
                TDiscrete, Suc (rng ?st)) \<and>
        (0 \<le> halfSource (rng ?st) \<and> halfSource (rng ?st) < 1 \<longrightarrow>
           \<bar>(halfSource (rng ?st) - 1 / 2) * 5\<bar> \<le> 5 / 2) \<and>
        (\<exists>st'. imputeCell RegressionAlg halfSource [gapStudent] slots3 [subX1] gapStudent 1 subX1 ?st =
             Some st' \<and>
           newData st' (t_id (slots3 ! 1)) (s_id subX1) =
             Some (roundClamp (s_full subX1) ((p + n) / 2 + (halfSource (rng ?st) - 1 / 2) * 5)) \<and>
           newDetails st' (t_id (slots3 ! 1)) (s_id subX1) =
             Some \<lparr>d_val = roundClamp (s_full subX1) ((p + n) / 2 + (halfSource (rng ?st) - 1 / 2) * 5),
                   d_type = TDiscrete, d_method = TemporalInterpolation\<rparr>) \<and>
        (p = 80 \<and> n = 90 \<and> halfSource (rng ?st) = 1 / 2 \<and> 90 \<le> s_full subX1 \<longrightarrow>
           roundClamp (s_full subX1) ((p + n) / 2 + (halfSource (rng ?st) - 1 / 2) * 5) = 85)"
    by (rule conjunct1)
  from this [rule_format, OF nb]
  have est: "estimateCell RegressionAlg halfSource [gapStudent] slots3 [subX1] gapStudent (newData ?st) 1
            subX1 TDiscrete (rng ?st) =
          Some (((80 + 90) / 2 + (halfSource (rng ?st) - 1 / 2) * 5, TemporalInterpolation),
                TDiscrete, Suc (rng ?st))"
    and wr: "\<exists>st'. imputeCell RegressionAlg halfSource [gapStudent] slots3 [subX1] gapStudent 1 subX1 ?st =
             Some st' \<and>
           newData st' (t_id (slots3 ! 1)) (s_id subX1) =
             Some (roundClamp (s_full subX1) ((80 + 90) / 2 + (halfSource (rng ?st) - 1 / 2) * 5)) \<and>
           newDetails st' (t_id (slots3 ! 1)) (s_id subX1) =
             Some \<lparr>d_val = roundClamp (s_full subX1) ((80 + 90) / 2 + (halfSource (rng ?st) - 1 / 2) * 5),
                   d_type = TDiscrete, d_method = TemporalInterpolation\<rparr>"
    and rc: "80 = 80 \<and> 90 = 90 \<and> halfSource (rng ?st) = 1 / 2 \<and> 90 \<le> s_full subX1 \<longrightarrow>
           roundClamp (s_full subX1) ((80 + 90) / 2 + (halfSource (rng ?st) - 1 / 2) * 5) = 85"
    by blast+
  have v: "roundClamp (s_full subX1) ((80 + 90) / 2 + (halfSource (rng ?st) - 1 / 2) * 5) = 85"
    using rc ex by blast
  have a: "estimateCell RegressionAlg halfSource [gapStudent] slots3 [subX1] gapStudent
       (newData ?st) 1 subX1 TDiscrete (rng ?st) = Some ((85, TemporalInterpolation), TDiscrete, 1)"
    unfolding est by (simp add: halfSource_def startPass_def)
  have b: "\<exists>st'. imputeCell RegressionAlg halfSource [gapStudent] slots3 [subX1] gapStudent 1 subX1
             ?st = Some st' \<and> newData st' ''t2'' ''x1'' = Some 85"
    using wr unfolding v by (auto simp: slots3_def subX1_def)
  let ?st2 = "startPass (st_data pairStudent)"
  have nb2: "newData ?st2 (t_id (slots4 ! (1 - 1))) (s_id subX1) = None \<or>
            newData ?st2 (t_id (slots4 ! (1 + 1))) (s_id subX1) = None"
    by (simp add: startPass_def pairStudent_def mkStudent_def dataOf_def setCell_def slots4_def
        slots3_def subX1_def)
  note T2 = C5_discrete_interpolation [OF cls2, where st = ?st2 and algorithm = RegressionAlg
      and rnd = halfSource and students = "[pairStudent]" and subjects = "[subX1]"]
  from T2 nb2 have "estimateCell RegressionAlg halfSource [pairStudent] slots4 [subX1] pairStudent
       (newData ?st2) 1 subX1 TDiscrete (rng ?st2) =
          map_option (\<lambda>(vm, k'). (vm, TContinuous, k'))
            (fallbackEstimate RegressionAlg halfSource [pairStudent] [subX1] pairStudent (newData ?st2)
               (slots4 ! 1) subX1 (rng ?st2))"
    by blast
  also have "\<dots> = Some ((0, MeanFill), TContinuous, 0)"
    by (simp add: fallbackEstimate_def regressionEstimate_def cohortMean_def validValsOf_def
        List.map_filter_simps lengthOr1_def startPass_def pairStudent_def mkStudent_def dataOf_def
        setCell_def slots4_def slots3_def subX1_def Let_def)
  finally have c: "estimateCell RegressionAlg halfSource [pairStudent] slots4 [subX1] pairStudent
       (newData ?st2) 1 subX1 TDiscrete (rng ?st2) = Some ((0, MeanFill), TContinuous, 0)" .
  show ?thesis using cls cls2 a b c by (simp add: subX1_def)
qed

lemmas sample_defs = mkStudent_def dataOf_def setCell_def slot1_def subX1_def subX2_def

lemmas estimator_defs = regressionEstimate_def knnEstimate_def knnVisit_def knnDistance_def
  cohortMean_def validValsOf_def List.map_filter_simps lengthOr1_def refMeanOf_def Let_def

lemmas engine_defs = handleRunAlgorithm_def imputeStudent_def imputeCell_def estimateCell_def
  interpolate_def fallbackEstimate_def roundClamp_def analyzeMissingType_def scanFwd.simps
  recalcScores_def totalScore_def cellOrZero_def byFinalScoreDesc_def

lemma sqrt_100: "sqrt 100 = 10"
  by (rule real_sqrt_unique) simp_all

lemma sqrt_400: "sqrt 400 = 20"
  by (rule real_sqrt_unique) simp_all

text \<open>
  Claim C1 against the code. In \<open>crossCohort\<close> the first student lacks \<open>x1\<close> and has 60 in
  the reference subject \<open>x2\<close>, which the second student lacks. The mean of \<open>x1\<close> is 50 and
  the mean of the present values of \<open>x2\<close> is 60, so the claim's value is \<open>60 * (50 / 60) = 50\<close>.
  The code divides the sum of the present reference values by the number of all students,
  takes 30 for the reference mean and computes \<open>60 * (50 / 30) = 100\<close>, which the pass writes.
\<close>

theorem C1_reference_mean_over_all_students:
  "regressionEstimate crossCohort [subX1, subX2] (st_data (crossCohort ! 0)) (slot1 ! 0) subX1 =
     (100, Regression ''maths'') \<and>
   refMeanOf crossCohort ''t1'' ''x2'' = 30 \<and>
   cohortMean crossCohort ''t1'' ''x1'' = 50 \<and>
   referenceMeanSpec crossCohort ''t1'' ''x2'' = 60 \<and>
   60 * (cohortMean crossCohort ''t1'' ''x1'' / referenceMeanSpec crossCohort ''t1'' ''x2'') = 50 \<and>
   map_option (fst \<circ> snd)
       (handleRunAlgorithm RegressionAlg halfSource 0 crossCohort slot1 [subX1, subX2]) =
     Some [(''o1'', ''chinese'', Regression ''maths'', 100),
           (''o2'', ''maths'', Regression ''chinese'', 120)]"
proof (intro conjI)
  show "regressionEstimate crossCohort [subX1, subX2] (st_data (crossCohort ! 0)) (slot1 ! 0) subX1 =
     (100, Regression ''maths'')"
    by (simp add: crossCohort_def sample_defs estimator_defs)
  show "refMeanOf crossCohort ''t1'' ''x2'' = 30"
    by (simp add: crossCohort_def sample_defs estimator_defs)
  show m: "cohortMean crossCohort ''t1'' ''x1'' = 50"
    by (simp add: crossCohort_def sample_defs estimator_defs)
  show r: "referenceMeanSpec crossCohort ''t1'' ''x2'' = 60"
    by (simp add: referenceMeanSpec_def crossCohort_def sample_defs estimator_defs)
  show "60 * (cohortMean crossCohort ''t1'' ''x1'' / referenceMeanSpec crossCohort ''t1'' ''x2'') = 50"
    unfolding m r by simp
  show "map_option (fst \<circ> snd)
       (handleRunAlgorithm RegressionAlg halfSource 0 crossCohort slot1 [subX1, subX2]) =
     Some [(''o1'', ''chinese'', Regression ''maths'', 100),
           (''o2'', ''maths'', Regression ''chinese'', 120)]"
    by (simp add: crossCohort_def sample_defs estimator_defs engine_defs)
qed

text \<open>
  Claim C10. The estimators read the current student's other subjects from the working
  copy. In \<open>blankCohort\<close> the first student has neither \<open>x1\<close> nor \<open>x2\<close>: under regression,
  \<open>x1\<close> is filled with the mean 40 and then serves as the reference of \<open>x2\<close>, which becomes
  \<open>40 * (60 / 20) = 120\<close>, whereas the estimator on the student's own data finds no reference
  and gives the mean 60. In \<open>knnCohort\<close>, under nearest neighbour, \<open>x1\<close> is filled with the
  mean 30 and then is the distance dimension that selects the neighbour with 60 in \<open>x2\<close>,
  whereas the estimator on the student's own data has no dimension and gives the mean 50.
\<close>

theorem C10_working_copy_is_read:
  "st_data (blankCohort ! 0) ''t1'' ''x1'' = None \<and>
   map_option (fst \<circ> snd)
       (handleRunAlgorithm RegressionAlg halfSource 0 blankCohort slot1 [subX1, subX2]) =
     Some [(''o1'', ''chinese'', MeanFill, 40), (''o1'', ''maths'', Regression ''chinese'', 120)] \<and>
   regressionEstimate blankCohort [subX1, subX2] (st_data (blankCohort ! 0)) (slot1 ! 0) subX2 =
     (60, MeanFill) \<and>
   st_data (knnCohort ! 0) ''t1'' ''x1'' = None \<and>
   map_option (fst \<circ> snd)
       (handleRunAlgorithm KnnAlg halfSource 0 knnCohort slot1 [subX1, subX2]) =
     Some [(''o1'', ''chinese'', KNN, 30), (''o1'', ''maths'', KNN, 60)] \<and>
   knnEstimate knnCohort [subX1, subX2] (knnCohort ! 0) (st_data (knnCohort ! 0)) (slot1 ! 0) subX2 =
     (50, KNN)"
proof (intro conjI)
  show "st_data (blankCohort ! 0) ''t1'' ''x1'' = None"
    by (simp add: blankCohort_def sample_defs)
  show "map_option (fst \<circ> snd)
       (handleRunAlgorithm RegressionAlg halfSource 0 blankCohort slot1 [subX1, subX2]) =
     Some [(''o1'', ''chinese'', MeanFill, 40), (''o1'', ''maths'', Regression ''chinese'', 120)]"
    by (simp add: blankCohort_def sample_defs estimator_defs engine_defs)
  show "regressionEstimate blankCohort [subX1, subX2] (st_data (blankCohort ! 0)) (slot1 ! 0) subX2 =
     (60, MeanFill)"
    by (simp add: blankCohort_def sample_defs estimator_defs)
  show "st_data (knnCohort ! 0) ''t1'' ''x1'' = None"
    by (simp add: knnCohort_def sample_defs)
  show "map_option (fst \<circ> snd)
       (handleRunAlgorithm KnnAlg halfSource 0 knnCohort slot1 [subX1, subX2]) =
     Some [(''o1'', ''chinese'', KNN, 30), (''o1'', ''maths'', KNN, 60)]"
    by (simp add: knnCohort_def sample_defs estimator_defs engine_defs sqrt_100 sqrt_400)
  show "knnEstimate knnCohort [subX1, subX2] (knnCohort ! 0) (st_data (knnCohort ! 0)) (slot1 ! 0) subX2 =
     (50, KNN)"
    by (simp add: knnCohort_def sample_defs estimator_defs)
qed

end
